theory Spec2Isabelle
  imports Main "HOL-Library.Word"
begin

section \<open>Strings of the page script\<close>

text \<open>
  A JavaScript string is a sequence of 16-bit code units; \<open>length\<close> counts code units,
  as \<^verbatim>\<open>.length\<close> does. Text that the script itself writes (messages, class names,
  element ids) is kept as \<open>string\<close>; text typed by the user is a \<open>jsstring\<close>.
\<close>

type_synonym code_unit = "16 word"
type_synonym jsstring = "code_unit list"

definition js :: "string \<Rightarrow> jsstring" where
  "js s = map of_char s"

text \<open>
  White space as \<^verbatim>\<open>String.prototype.trim\<close> and the class \<^verbatim>\<open>\s\<close> of a regular
  expression understand it (ECMAScript WhiteSpace and LineTerminator).
\<close>

definition isWhiteSpace :: "code_unit \<Rightarrow> bool" where
  "isWhiteSpace c \<longleftrightarrow>
     (0x0009 \<le> c \<and> c \<le> 0x000D) \<or> c = 0x0020 \<or> c = 0x00A0 \<or> c = 0x1680 \<or>
     (0x2000 \<le> c \<and> c \<le> 0x200A) \<or> c = 0x2028 \<or> c = 0x2029 \<or> c = 0x202F \<or>
     c = 0x205F \<or> c = 0x3000 \<or> c = 0xFEFF"

definition trim :: "jsstring \<Rightarrow> jsstring" where
  "trim s = rev (dropWhile isWhiteSpace (rev (dropWhile isWhiteSpace s)))"

subsection \<open>Regular expressions\<close>

text \<open>
  Both regular expressions of the script are anchored at \<^verbatim>\<open>^\<close> and \<^verbatim>\<open>$\<close>, carry no
  flag, and are a sequence of character classes, each taken once or with \<^verbatim>\<open>+\<close>.
  \<open>test\<close> is \<^verbatim>\<open>RegExp.prototype.test\<close> on such an expression: the whole string has
  to be consumed.
\<close>

datatype quantifier = Once | OneOrMore

type_synonym regex = "((code_unit \<Rightarrow> bool) \<times> quantifier) list"

fun test :: "regex \<Rightarrow> jsstring \<Rightarrow> bool" where
  "test [] s = (s = [])"
| "test ((p, Once) # r) s = (case s of [] \<Rightarrow> False | c # cs \<Rightarrow> p c \<and> test r cs)"
| "test ((p, OneOrMore) # r) s =
     (case s of [] \<Rightarrow> False
      | c # cs \<Rightarrow> p c \<and> (test ((p, OneOrMore) # r) cs \<or> test r cs))"

text \<open>The class \<^verbatim>\<open>[a-zA-Z0-9_]\<close>.\<close>

definition wordChar :: "code_unit \<Rightarrow> bool" where
  "wordChar c \<longleftrightarrow>
     (0x61 \<le> c \<and> c \<le> 0x7A) \<or> (0x41 \<le> c \<and> c \<le> 0x5A) \<or> (0x30 \<le> c \<and> c \<le> 0x39) \<or> c = 0x5F"

text \<open>The class \<^verbatim>\<open>[^\s@]\<close>.\<close>

definition notSpaceAt :: "code_unit \<Rightarrow> bool" where
  "notSpaceAt c \<longleftrightarrow> \<not> isWhiteSpace c \<and> c \<noteq> 0x40"

text \<open>\<^verbatim>\<open>/^[a-zA-Z0-9_]+$/\<close>\<close>

definition usernameRegex :: regex where
  "usernameRegex = [(wordChar, OneOrMore)]"

text \<open>\<^verbatim>\<open>/^[^\s@]+@[^\s@]+\.[^\s@]+$/\<close>\<close>

definition emailRegex :: regex where
  "emailRegex =
     [(notSpaceAt, OneOrMore), (\<lambda>c. c = 0x40, Once),
      (notSpaceAt, OneOrMore), (\<lambda>c. c = 0x2E, Once),
      (notSpaceAt, OneOrMore)]"

section \<open>The page\<close>

text \<open>
  The markup of the page is not part of the sources, so the model takes its structure as
  given. An input element is kept together with the \<^verbatim>\<open>.input-group\<close> that encloses it:
  its \<^verbatim>\<open>value\<close> (the field \<open>ivalue\<close>), the class list of the group, and the text of
  the group's \<^verbatim>\<open>.error-message\<close> element. The document maps an element id to its input, as
  \<^verbatim>\<open>getElementById\<close> does; where the script guards against a missing element
  (\<^verbatim>\<open>input &&\<close>, \<^verbatim>\<open>?.\<close>) the lookup may be \<open>None\<close>.
\<close>

record input =
  ivalue :: jsstring
  classList :: "string set"
  errorMessage :: string

type_synonym document = "string \<rightharpoonup> input"

subsection \<open>Selectors\<close>

text \<open>
  \<open>validateForm\<close> does not look an id up: it splices the id into a selector,
  \<^verbatim>\<open>form.querySelector(`#${id}`)\<close>, and a selector that does not parse makes
  \<open>querySelector\<close> throw.
\<close>

datatype error = SyntaxError

text \<open>
  A string of ASCII letters, digits, \<^verbatim>\<open>_\<close> and \<^verbatim>\<open>-\<close> that starts with a letter or
  \<^verbatim>\<open>_\<close> is a CSS identifier, and \<^verbatim>\<open>#\<close> followed by it is the selector of the element
  with that id.
\<close>

definition plainIdentifier :: "string \<Rightarrow> bool" where
  "plainIdentifier s \<longleftrightarrow>
     (case s of
        [] \<Rightarrow> False
      | c # cs \<Rightarrow>
          c \<in> set ''abcdefghijklmnopqrstuvwxyzABCDEFGHIJKLMNOPQRSTUVWXYZ_'' \<and>
          list_all
            (\<lambda>x. x \<in> set ''abcdefghijklmnopqrstuvwxyzABCDEFGHIJKLMNOPQRSTUVWXYZ_0123456789-'')
            cs)"

text \<open>
  A form is known by the ids of the elements below it. What the selector engine of the
  browser answers on any other selector depends on parts of the page that the model does
  not hold, so that answer is a component of the form: an error, \<open>None\<close> for
  \<^verbatim>\<open>null\<close>, or the id under which the document has the selected element.
\<close>

record form =
  members :: "string set"
  otherSelector :: "string \<Rightarrow> error + string option"

text \<open>
  \<^verbatim>\<open>#\<close> alone, and \<^verbatim>\<open>#\<close> followed by a digit, do not parse.
\<close>

definition malformedId :: "string \<Rightarrow> bool" where
  "malformedId i \<longleftrightarrow> (case i of [] \<Rightarrow> True | d # _ \<Rightarrow> d \<in> set ''0123456789'')"

text \<open>
  A selection is the selected input together with the id under which the document has it.
  \<open>selectOther\<close> is the selection that the engine's answer stands for.
\<close>

definition selectOther ::
  "document \<Rightarrow> form \<Rightarrow> string \<Rightarrow> error + (string \<times> input) option" where
  "selectOther doc frm selector =
     (case otherSelector frm selector of
        Inl e \<Rightarrow> Inl e
      | Inr None \<Rightarrow> Inr None
      | Inr (Some j) \<Rightarrow> Inr (map_option (Pair j) (doc j)))"

definition querySelector ::
  "document \<Rightarrow> form \<Rightarrow> string \<Rightarrow> error + (string \<times> input) option" where
  "querySelector doc frm selector =
     (case selector of
        [] \<Rightarrow> Inl SyntaxError
      | c # i \<Rightarrow>
          if c = CHR ''#'' \<and> plainIdentifier i then
            Inr (if i \<in> members frm then map_option (Pair i) (doc i) else None)
          else if c = CHR ''#'' \<and> malformedId i then
            Inl SyntaxError
          else
            selectOther doc frm selector)"

section \<open>Form validation\<close>

datatype rule = Name | Username | Email | Password | ConfirmPassword

definition validators_name :: "jsstring \<Rightarrow> string" where
  "validators_name v =
     (if trim v = [] then ''Name is required''
      else if length (trim v) < 2 then ''Name must be at least 2 characters''
      else [])"

definition validators_username :: "jsstring \<Rightarrow> string" where
  "validators_username v =
     (if trim v = [] then ''Username is required''
      else if length (trim v) < 3 then ''Username must be at least 3 characters''
      else if \<not> test usernameRegex v then ''Only letters, numbers, and underscores''
      else [])"

definition validators_email :: "jsstring \<Rightarrow> string" where
  "validators_email v =
     (if trim v = [] then ''Email is required''
      else if \<not> test emailRegex v then ''Please enter a valid email''
      else [])"

definition validators_password :: "jsstring \<Rightarrow> string" where
  "validators_password v =
     (if v = [] then ''Password is required''
      else if length v < 6 then ''Password must be at least 6 characters''
      else [])"

text \<open>
  \<^verbatim>\<open>document.getElementById("signUpPassword")?.value\<close> is \<^verbatim>\<open>undefined\<close> when the
  element is missing, and no string is strictly equal to \<^verbatim>\<open>undefined\<close>.
\<close>

definition validators_confirmPassword :: "document \<Rightarrow> jsstring \<Rightarrow> string" where
  "validators_confirmPassword doc v =
     (if v = [] then ''Please confirm your password''
      else (let password = map_option ivalue (doc ''signUpPassword'')
            in if Some v \<noteq> password then ''Passwords do not match'' else []))"

fun validators :: "rule \<Rightarrow> document \<Rightarrow> jsstring \<Rightarrow> string" where
  "validators Name doc v = validators_name v"
| "validators Username doc v = validators_username v"
| "validators Email doc v = validators_email v"
| "validators Password doc v = validators_password v"
| "validators ConfirmPassword doc v = validators_confirmPassword doc v"

text \<open>
  \<open>validateField\<close> returns whether the field is valid, and the input with the marks of
  its group updated. A non-empty message is truthy.
\<close>

definition validateField :: "document \<Rightarrow> input \<Rightarrow> rule \<Rightarrow> bool \<times> input" where
  "validateField doc inp validatorKey =
     (let error = validators validatorKey doc (ivalue inp) in
      if error \<noteq> [] then
        (False, inp\<lparr>classList := insert ''error'' (classList inp - {''success''}),
                    errorMessage := error\<rparr>)
      else
        (True, inp\<lparr>classList :=
                     (if trim (ivalue inp) \<noteq> []
                      then insert ''success'' (classList inp - {''error''})
                      else (classList inp - {''error''}) - {''success''}),
                   errorMessage := []\<rparr>))"

text \<open>
  The \<^verbatim>\<open>forEach\<close> of \<open>validateForm\<close>, with the flag \<open>isValid\<close> and the document passed
  along. A field spec is the pair of an element id and the rule. When \<open>querySelector\<close>
  throws, the loop ends there: the result is the error, and the document is as the fields
  validated so far have left it.
\<close>

type_synonym field_spec = "string \<times> rule"

fun validateForm_forEach ::
  "form \<Rightarrow> field_spec list \<Rightarrow> bool \<Rightarrow> document \<Rightarrow> (error + bool) \<times> document" where
  "validateForm_forEach frm [] isValid doc = (Inr isValid, doc)"
| "validateForm_forEach frm ((i, validator) # fs) isValid doc =
     (case querySelector doc frm (CHR ''#'' # i) of
        Inl e \<Rightarrow> (Inl e, doc)
      | Inr None \<Rightarrow> validateForm_forEach frm fs isValid doc
      | Inr (Some (j, inp)) \<Rightarrow>
          (let (ok, inp') = validateField doc inp validator
           in validateForm_forEach frm fs (if \<not> ok then False else isValid)
                (doc(j \<mapsto> inp'))))"

definition validateForm ::
  "document \<Rightarrow> form \<Rightarrow> field_spec list \<Rightarrow> (error + bool) \<times> document" where
  "validateForm doc frm fs = validateForm_forEach frm fs True doc"

section \<open>Rate limiter\<close>

text \<open>
  The closure of \<open>createRateLimiter\<close>: the interval it was created with and its two
  variables. The value of \<^verbatim>\<open>Date.now()\<close> is an argument of each method.
\<close>

record rateLimiter =
  intervalMs :: int
  lastCall :: int
  isLimited :: bool

definition createRateLimiter :: "int \<Rightarrow> rateLimiter" where
  "createRateLimiter interval = \<lparr>intervalMs = interval, lastCall = 0, isLimited = False\<rparr>"

definition canProceed :: "int \<Rightarrow> rateLimiter \<Rightarrow> bool \<times> rateLimiter" where
  "canProceed now l =
     (if now - lastCall l \<ge> intervalMs l
      then (True, l\<lparr>lastCall := now, isLimited := False\<rparr>)
      else (False, l\<lparr>isLimited := True\<rparr>))"

definition isCurrentlyLimited :: "rateLimiter \<Rightarrow> bool" where
  "isCurrentlyLimited l = isLimited l"

definition getRemainingTime :: "int \<Rightarrow> rateLimiter \<Rightarrow> int" where
  "getRemainingTime now l = max 0 (intervalMs l - (now - lastCall l))"

section \<open>Numbers as text\<close>

text \<open>
  \<^verbatim>\<open>Number.prototype.toString(radix)\<close> on a non-negative integer, for a radix from 2
  to 36 (the script uses 16, and 10 inside a template literal), and
  \<^verbatim>\<open>String.prototype.padStart\<close>.
\<close>

definition digitChar :: "nat \<Rightarrow> char" where
  "digitChar d = ''0123456789abcdefghijklmnopqrstuvwxyz'' ! d"

function toString :: "nat \<Rightarrow> nat \<Rightarrow> string" where
  "toString radix n =
     (if n < radix \<or> radix < 2 then [digitChar n]
      else toString radix (n div radix) @ [digitChar (n mod radix)])"
  by pat_completeness auto
termination
  by (relation "measure snd") auto

declare toString.simps [simp del]

definition padStart :: "nat \<Rightarrow> string \<Rightarrow> string \<Rightarrow> string" where
  "padStart targetLength padString s =
     (if targetLength \<le> length s \<or> padString = [] then s
      else take (targetLength - length s)
             (concat (replicate (targetLength - length s) padString)) @ s)"

section \<open>State of the page\<close>

text \<open>
  Everything the submit handlers read or write: the inputs, the two forms with their
  submit buttons and rate limiters, the token of \<open>csrfManager\<close> (\<open>None\<close> is
  \<^verbatim>\<open>null\<close>), the bytes that \<^verbatim>\<open>crypto.getRandomValues\<close> will deliver next, the
  \<^verbatim>\<open>rememberMe\<close> checkbox, \<^verbatim>\<open>localStorage\<close>, the toasts appended to the toast
  container, and whether the container carries the class \<^verbatim>\<open>active\<close>.

  The last component, \<open>history\<close>, is not a variable of the script. It lists what has been
  done to the page, in the order in which it was done: every operation below that a claim
  about order speaks of enters itself there when it runs.
\<close>

record button =
  buttonClassList :: "string set"
  disabled :: bool

datatype toast_type = Success | Error | Info

type_synonym formData = "(string \<times> jsstring) list"

datatype event =
    CanProceed bool
  | ValidateForm "error + bool"
  | ShowToast string toast_type
  | AddToFormData formData
  | ConsoleLog jsstring
  | ButtonLoading
  | SetTimeout nat
  | ButtonRestored
  | RefreshToken jsstring
  | StorageSetItem string string
  | StorageRemoveItem string

record page =
  document :: document
  signInForm :: form
  signUpForm :: form
  signInButton :: button
  signUpButton :: button
  signInRateLimiter :: rateLimiter
  signUpRateLimiter :: rateLimiter
  token :: "jsstring option"
  entropy :: "nat \<Rightarrow> 8 word"
  rememberMe :: bool
  localStorage :: "string \<rightharpoonup> string"
  toasts :: "(string \<times> toast_type) list"
  containerActive :: bool
  history :: "event list"

definition logEvent :: "event \<Rightarrow> page \<Rightarrow> page" where
  "logEvent e p = p\<lparr>history := history p @ [e]\<rparr>"

section \<open>CSRF token\<close>

text \<open>
  \<^verbatim>\<open>crypto.getRandomValues\<close> on a fresh \<^verbatim>\<open>Uint8Array(n)\<close>: the next \<open>n\<close> bytes are
  taken from the stream.
\<close>

definition getRandomValues :: "nat \<Rightarrow> page \<Rightarrow> 8 word list \<times> page" where
  "getRandomValues n p = (map (entropy p) [0..<n], p\<lparr>entropy := (\<lambda>i. entropy p (i + n))\<rparr>)"

definition generateToken :: "page \<Rightarrow> jsstring \<times> page" where
  "generateToken p =
     (let (array, p1) = getRandomValues 32 p;
          tok = js (concat (map (\<lambda>byte. padStart 2 ''0'' (toString 16 (unat byte))) array))
      in (tok, p1\<lparr>token := Some tok\<rparr>))"

text \<open>\<^verbatim>\<open>!this.token\<close> holds for \<^verbatim>\<open>null\<close> and for the empty string.\<close>

definition getToken :: "page \<Rightarrow> jsstring \<times> page" where
  "getToken p =
     (case token p of
        None \<Rightarrow> generateToken p
      | Some t \<Rightarrow> if t = [] then generateToken p else (t, p))"

definition addToFormData :: "formData \<Rightarrow> page \<Rightarrow> formData \<times> page" where
  "addToFormData fd p =
     (let (t, p1) = getToken p;
          formData = fd @ [(''_csrf'', t)]
      in (formData, logEvent (AddToFormData formData) p1))"

definition validateToken :: "jsstring \<Rightarrow> page \<Rightarrow> bool" where
  "validateToken t p \<longleftrightarrow> Some t = token p"

definition refreshToken :: "page \<Rightarrow> jsstring \<times> page" where
  "refreshToken p = (let (tok, p1) = generateToken p in (tok, logEvent (RefreshToken tok) p1))"

section \<open>Form submission\<close>

text \<open>
  \<open>showToast\<close> appends the toast; its removal three seconds later is not modelled.
\<close>

definition showToast :: "string \<Rightarrow> toast_type \<Rightarrow> page \<Rightarrow> page" where
  "showToast message type p =
     logEvent (ShowToast message type) (p\<lparr>toasts := toasts p @ [(message, type)]\<rparr>)"

definition setTimeout :: "nat \<Rightarrow> page \<Rightarrow> page" where
  "setTimeout ms p = logEvent (SetTimeout ms) p"

definition consoleLog :: "jsstring \<Rightarrow> page \<Rightarrow> page" where
  "consoleLog x p = logEvent (ConsoleLog x) p"

definition localStorage_setItem :: "string \<Rightarrow> string \<Rightarrow> page \<Rightarrow> page" where
  "localStorage_setItem k v p =
     logEvent (StorageSetItem k v) (p\<lparr>localStorage := (localStorage p)(k \<mapsto> v)\<rparr>)"

definition localStorage_removeItem :: "string \<Rightarrow> page \<Rightarrow> page" where
  "localStorage_removeItem k p =
     logEvent (StorageRemoveItem k) (p\<lparr>localStorage := (localStorage p)(k := None)\<rparr>)"

text \<open>
  \<open>simulateFormSubmission\<close> in its two halves: the body of the promise, which marks the
  button and sets the timer, and the callback of the timer, which restores the button and
  resolves the promise. The button is passed as the update of its component of the page.
\<close>

definition simulateFormSubmission_start ::
  "((button \<Rightarrow> button) \<Rightarrow> page \<Rightarrow> page) \<Rightarrow> page \<Rightarrow> page" where
  "simulateFormSubmission_start button p =
     setTimeout 1500
       (logEvent ButtonLoading
         (button (\<lambda>b. b\<lparr>buttonClassList := insert ''loading'' (buttonClassList b),
                          disabled := True\<rparr>) p))"

definition simulateFormSubmission_timeout ::
  "((button \<Rightarrow> button) \<Rightarrow> page \<Rightarrow> page) \<Rightarrow> page \<Rightarrow> page" where
  "simulateFormSubmission_timeout button p =
     logEvent ButtonRestored
       (button (\<lambda>b. b\<lparr>buttonClassList := buttonClassList b - {''loading''},
                        disabled := False\<rparr>) p)"

text \<open>
  The calls of a handler on its rate limiter and on \<open>validateForm\<close>, as operations on the
  page: the limiter is passed as its component of the page and the update of that
  component.
\<close>

definition rateLimiter_canProceed ::
  "(page \<Rightarrow> rateLimiter) \<Rightarrow> ((rateLimiter \<Rightarrow> rateLimiter) \<Rightarrow> page \<Rightarrow> page) \<Rightarrow>
   int \<Rightarrow> page \<Rightarrow> bool \<times> page" where
  "rateLimiter_canProceed limiter limiter_update now p =
     (let (proceed, l) = canProceed now (limiter p)
      in (proceed, logEvent (CanProceed proceed) (limiter_update (\<lambda>_. l) p)))"

definition page_validateForm ::
  "form \<Rightarrow> field_spec list \<Rightarrow> page \<Rightarrow> (error + bool) \<times> page" where
  "page_validateForm frm fs p =
     (let (result, doc) = validateForm (document p) frm fs
      in (result, logEvent (ValidateForm result) (p\<lparr>document := doc\<rparr>)))"

text \<open>
  The message of a rejected attempt:
  \<^verbatim>\<open>Math.ceil(getRemainingTime() / 1000)\<close> of a remaining time that is never negative.
\<close>

definition waitMessage :: "int \<Rightarrow> string" where
  "waitMessage remainingMs =
     (let remaining = - ((- remainingMs) div 1000)
      in ''Please wait '' @ toString 10 (nat remaining) @ ''s before trying again'')"

definition signInFields :: "field_spec list" where
  "signInFields = [(''signInEmail'', Email), (''signInPassword'', Password)]"

definition signUpFields :: "field_spec list" where
  "signUpFields =
     [(''signUpName'', Name), (''signUpUsername'', Username), (''signUpEmail'', Email),
      (''signUpPassword'', Password), (''signUpConfirmPassword'', ConfirmPassword)]"

text \<open>
  The handler of \<open>signInForm\<close> up to its \<^verbatim>\<open>await\<close>. \<open>now\<close> and \<open>later\<close> are the
  values of \<^verbatim>\<open>Date.now()\<close> in \<open>canProceed\<close> and in \<open>getRemainingTime\<close>, \<open>fd\<close> is
  \<^verbatim>\<open>new FormData(signInForm)\<close>. The flag returned says whether the handler is now
  waiting for the timer. An error thrown by \<open>validateForm\<close> is not caught, and ends the
  handler.
\<close>

definition signInForm_submit :: "int \<Rightarrow> int \<Rightarrow> formData \<Rightarrow> page \<Rightarrow> bool \<times> page" where
  "signInForm_submit now later fd p =
     (let (proceed, p1) = rateLimiter_canProceed signInRateLimiter signInRateLimiter_update now p
      in if \<not> proceed then
           (let remaining = getRemainingTime later (signInRateLimiter p1)
            in (False, showToast (waitMessage remaining) Error p1))
         else
           (let (result, p2) = page_validateForm (signInForm p1) signInFields p1
            in case result of
                 Inl e \<Rightarrow> (False, p2)
               | Inr valid \<Rightarrow>
                   if \<not> valid then
                     (False, showToast ''Please fix the errors above'' Error p2)
                   else
                     (let (formData, p3) = addToFormData fd p2;
                          (tok, p4) = getToken p3;
                          p5 = consoleLog tok p4
                      in (True, simulateFormSubmission_start signInButton_update p5))))"

text \<open>
  The rest of the handler, run when the timer fires: the callback of the timer, then the
  statements after the \<^verbatim>\<open>await\<close>.
\<close>

definition signInForm_resume :: "page \<Rightarrow> page" where
  "signInForm_resume p =
     (let p1 = simulateFormSubmission_timeout signInButton_update p;
          (tok, p2) = refreshToken p1;
          p3 = (if rememberMe p2 then localStorage_setItem ''rememberMe'' ''true'' p2
                else localStorage_removeItem ''rememberMe'' p2)
      in showToast ''Welcome back! Signing you in...'' Success p3)"

text \<open>The handler of \<open>signUpForm\<close>, in the same two parts.\<close>

definition signUpForm_submit :: "int \<Rightarrow> int \<Rightarrow> formData \<Rightarrow> page \<Rightarrow> bool \<times> page" where
  "signUpForm_submit now later fd p =
     (let (proceed, p1) = rateLimiter_canProceed signUpRateLimiter signUpRateLimiter_update now p
      in if \<not> proceed then
           (let remaining = getRemainingTime later (signUpRateLimiter p1)
            in (False, showToast (waitMessage remaining) Error p1))
         else
           (let (result, p2) = page_validateForm (signUpForm p1) signUpFields p1
            in case result of
                 Inl e \<Rightarrow> (False, p2)
               | Inr valid \<Rightarrow>
                   if \<not> valid then
                     (False, showToast ''Please fix the errors above'' Error p2)
                   else
                     (let (formData, p3) = addToFormData fd p2;
                          (tok, p4) = getToken p3;
                          p5 = consoleLog tok p4
                      in (True, simulateFormSubmission_start signUpButton_update p5))))"

text \<open>
  After the toast the handler sets a second timer, of one second, whose callback
  \<open>signUpForm_switch\<close> takes the class \<^verbatim>\<open>active\<close> from the container.
\<close>

definition signUpForm_resume :: "page \<Rightarrow> page" where
  "signUpForm_resume p =
     (let p1 = simulateFormSubmission_timeout signUpButton_update p;
          (tok, p2) = refreshToken p1;
          p3 = showToast ''Account created successfully!'' Success p2
      in setTimeout 1000 p3)"

definition signUpForm_switch :: "page \<Rightarrow> page" where
  "signUpForm_switch p = p\<lparr>containerActive := False\<rparr>"

section \<open>Auxiliary notions\<close>

text \<open>
  What one field spec contributes to the loop of \<open>validateForm\<close>: the error thrown, or
  whether \<open>isValid\<close> stays as it is (the input is missing, or its validator returns the empty
  message). \<open>all_outcomes\<close> folds these as the loop does.
\<close>

fun field_outcome :: "document \<Rightarrow> form \<Rightarrow> field_spec \<Rightarrow> error + bool" where
  "field_outcome doc frm (i, k) =
     (case querySelector doc frm (CHR ''#'' # i) of
        Inl e \<Rightarrow> Inl e
      | Inr None \<Rightarrow> Inr True
      | Inr (Some (j, inp)) \<Rightarrow> Inr (validators k doc (ivalue inp) = []))"

fun all_outcomes :: "bool \<Rightarrow> (error + bool) list \<Rightarrow> error + bool" where
  "all_outcomes b [] = Inr b"
| "all_outcomes b (Inl e # rs) = Inl e"
| "all_outcomes b (Inr ok # rs) = all_outcomes (b \<and> ok) rs"

section \<open>Properties of the regular expressions and of trimming\<close>

lemma test_OneOrMore:
  "test ((p, OneOrMore) # r) s \<longleftrightarrow> (\<exists>a b. s = a @ b \<and> a \<noteq> [] \<and> list_all p a \<and> test r b)"
proof (induction s)
  case Nil
  then show ?case by simp
next
  case (Cons c cs)
  show ?case
  proof
    assume "test ((p, OneOrMore) # r) (c # cs)"
    then have pc: "p c" and alt: "test ((p, OneOrMore) # r) cs \<or> test r cs"
      by simp_all
    from alt show "\<exists>a b. c # cs = a @ b \<and> a \<noteq> [] \<and> list_all p a \<and> test r b"
    proof
      assume "test ((p, OneOrMore) # r) cs"
      with Cons.IH obtain a b where "cs = a @ b" "list_all p a" "test r b"
        by blast
      with pc have "c # cs = (c # a) @ b \<and> c # a \<noteq> [] \<and> list_all p (c # a) \<and> test r b"
        by simp
      then show ?thesis by blast
    next
      assume "test r cs"
      with pc have "c # cs = [c] @ cs \<and> [c] \<noteq> [] \<and> list_all p [c] \<and> test r cs"
        by simp
      then show ?thesis by blast
    qed
  next
    assume "\<exists>a b. c # cs = a @ b \<and> a \<noteq> [] \<and> list_all p a \<and> test r b"
    then obtain a b where ab: "c # cs = a @ b" "a \<noteq> []" "list_all p a" "test r b"
      by blast
    then obtain a' where a: "a = c # a'" and cs: "cs = a' @ b"
      by (cases a) auto
    with ab have pc: "p c" and pa': "list_all p a'" by simp_all
    show "test ((p, OneOrMore) # r) (c # cs)"
    proof (cases "a' = []")
      case True
      with cs ab pc show ?thesis by simp
    next
      case False
      with cs pa' ab have "test ((p, OneOrMore) # r) cs"
        using Cons.IH by blast
      with pc show ?thesis by simp
    qed
  qed
qed

lemma test_Once:
  "test ((p, Once) # r) s \<longleftrightarrow> (\<exists>c b. s = c # b \<and> p c \<and> test r b)"
  by (cases s) auto

lemma test_usernameRegex: "test usernameRegex v \<longleftrightarrow> v \<noteq> [] \<and> list_all wordChar v"
  unfolding usernameRegex_def test_OneOrMore by auto

lemma wordChar_notWhiteSpace: "wordChar c \<Longrightarrow> \<not> isWhiteSpace c"
  unfolding wordChar_def isWhiteSpace_def
  by (auto simp: word_le_def word_less_def uint_word_of_int)

lemma trim_noWhiteSpace: "list_all (\<lambda>c. \<not> isWhiteSpace c) v \<Longrightarrow> trim v = v"
proof -
  assume a: "list_all (\<lambda>c. \<not> isWhiteSpace c) v"
  then have "dropWhile isWhiteSpace v = v"
    by (cases v) auto
  moreover from a have "dropWhile isWhiteSpace (rev v) = rev v"
    by (cases "rev v") (auto simp: list_all_iff dest: arg_cong [where f = set])
  ultimately show ?thesis by (simp add: trim_def)
qed

lemma trim_eq_Nil: "trim v = [] \<longleftrightarrow> list_all isWhiteSpace v"
proof -
  have "trim v = [] \<longleftrightarrow> (\<forall>x \<in> set (dropWhile isWhiteSpace v). isWhiteSpace x)"
    by (simp add: trim_def)
  also have "\<dots> \<longleftrightarrow> (\<forall>x \<in> set v. isWhiteSpace x)"
  proof
    assume rest: "\<forall>x \<in> set (dropWhile isWhiteSpace v). isWhiteSpace x"
    show "\<forall>x \<in> set v. isWhiteSpace x"
    proof
      fix x
      assume "x \<in> set v"
      then have "x \<in> set (takeWhile isWhiteSpace v) \<or> x \<in> set (dropWhile isWhiteSpace v)"
        by (metis Un_iff set_append takeWhile_dropWhile_id)
      with rest show "isWhiteSpace x"
        by (auto dest: set_takeWhileD)
    qed
  next
    assume "\<forall>x \<in> set v. isWhiteSpace x"
    then show "\<forall>x \<in> set (dropWhile isWhiteSpace v). isWhiteSpace x"
      by (auto dest: set_dropWhileD)
  qed
  finally show ?thesis by (simp add: list_all_iff)
qed

lemma test_emailRegex:
  "test emailRegex v \<longleftrightarrow>
     (\<exists>a b c. v = a @ 0x40 # b @ 0x2E # c \<and> a \<noteq> [] \<and> b \<noteq> [] \<and> c \<noteq> [] \<and>
        list_all notSpaceAt a \<and> list_all notSpaceAt b \<and> list_all notSpaceAt c)"
proof
  assume "test emailRegex v"
  then have "\<exists>a r1. v = a @ r1 \<and> a \<noteq> [] \<and> list_all notSpaceAt a \<and>
        (\<exists>x r2. r1 = x # r2 \<and> x = 0x40 \<and>
           (\<exists>b r3. r2 = b @ r3 \<and> b \<noteq> [] \<and> list_all notSpaceAt b \<and>
              (\<exists>y r4. r3 = y # r4 \<and> y = 0x2E \<and>
                 (\<exists>c r5. r4 = c @ r5 \<and> c \<noteq> [] \<and> list_all notSpaceAt c \<and> r5 = []))))"
    unfolding emailRegex_def test_OneOrMore test_Once by (simp only: test.simps)
  then show "\<exists>a b c. v = a @ 0x40 # b @ 0x2E # c \<and> a \<noteq> [] \<and> b \<noteq> [] \<and> c \<noteq> [] \<and>
        list_all notSpaceAt a \<and> list_all notSpaceAt b \<and> list_all notSpaceAt c"
    by auto
next
  assume "\<exists>a b c. v = a @ 0x40 # b @ 0x2E # c \<and> a \<noteq> [] \<and> b \<noteq> [] \<and> c \<noteq> [] \<and>
        list_all notSpaceAt a \<and> list_all notSpaceAt b \<and> list_all notSpaceAt c"
  then obtain a b c where v: "v = a @ 0x40 # b @ 0x2E # c"
    and ne: "a \<noteq> []" "b \<noteq> []" "c \<noteq> []"
    and cls: "list_all notSpaceAt a" "list_all notSpaceAt b" "list_all notSpaceAt c"
    by blast
  have "c = c @ [] \<and> c \<noteq> [] \<and> list_all notSpaceAt c \<and> test [] []"
    using ne cls by simp
  then have t5: "test [(notSpaceAt, OneOrMore)] c"
    unfolding test_OneOrMore by blast
  then have t4: "test [(\<lambda>c. c = 0x2E, Once), (notSpaceAt, OneOrMore)] (0x2E # c)"
    by simp
  with ne cls have t3:
    "test [(notSpaceAt, OneOrMore), (\<lambda>c. c = 0x2E, Once), (notSpaceAt, OneOrMore)] (b @ 0x2E # c)"
    unfolding test_OneOrMore [of notSpaceAt "[(\<lambda>c. c = 0x2E, Once), (notSpaceAt, OneOrMore)]"]
    by blast
  then have t2:
    "test [(\<lambda>c. c = 0x40, Once), (notSpaceAt, OneOrMore), (\<lambda>c. c = 0x2E, Once),
       (notSpaceAt, OneOrMore)] (0x40 # b @ 0x2E # c)"
    by simp
  with ne cls show "test emailRegex v"
    unfolding emailRegex_def v
      test_OneOrMore [of notSpaceAt "[(\<lambda>c. c = 0x40, Once), (notSpaceAt, OneOrMore),
        (\<lambda>c. c = 0x2E, Once), (notSpaceAt, OneOrMore)]"]
    by blast
qed

lemma email_shape_not_blank:
  assumes "v = a @ 0x40 # b" "a \<noteq> []" "list_all notSpaceAt a"
  shows "trim v \<noteq> []"
proof -
  from assms obtain x where "x \<in> set v" "\<not> isWhiteSpace x"
    by (cases a) (auto simp: notSpaceAt_def)
  then show ?thesis by (auto simp: trim_eq_Nil list_all_iff)
qed

lemma username_iff:
  "validators_username v = [] \<longleftrightarrow> 3 \<le> length (trim v) \<and> list_all wordChar v"
proof (cases "list_all wordChar v")
  case True
  then have "list_all (\<lambda>c. \<not> isWhiteSpace c) v"
    by (simp add: list_all_iff wordChar_notWhiteSpace)
  then have "trim v = v" by (rule trim_noWhiteSpace)
  with True show ?thesis
    by (auto simp: validators_username_def test_usernameRegex)
next
  case False
  then show ?thesis
    by (simp add: validators_username_def test_usernameRegex)
qed

section \<open>The field validators\<close>

text \<open>
  Claim C2, as amended. The username validator passes if and only if the trimmed value is
  non-empty and has length at least 3 and every character of the value as typed, not
  only of the trimmed value, is in \<^verbatim>\<open>[A-Za-z0-9_]\<close>. So it fails when the value is empty
  after trimming, when the trimmed length is less than 3, and when any character of the
  value lies outside the class, leading and trailing white space included.
\<close>

theorem username_passes_iff:
  "validators_username v = [] \<longleftrightarrow>
     trim v \<noteq> [] \<and> 3 \<le> length (trim v) \<and> list_all wordChar v"
  using username_iff [of v] by auto

theorem username_passes_iff_witness:
  "validators_username (js ''al_99'') = [] \<and> validators_username (js ''al 99'') \<noteq> []"
  using username_passes_iff [of "js ''al_99''"] username_passes_iff [of "js ''al 99''"]
  by (simp add: js_def trim_def isWhiteSpace_def wordChar_def)

theorem username_trimmed_counterexample:
  "3 \<le> length (trim (js '' abc'')) \<and> list_all wordChar (trim (js '' abc''))
   \<and> validators_username (js '' abc'') \<noteq> []"
  by (simp add: validators_username_def js_def trim_def isWhiteSpace_def wordChar_def usernameRegex_def)

text \<open>
  Claim C6. The email validator passes if and only if the value is of the shape: one or
  more characters that are neither white space nor \<^verbatim>\<open>@\<close>, then \<^verbatim>\<open>@\<close>, then such
  characters, then a dot, then such characters. It fails on every other value, the empty
  one included. It rejects \<^verbatim>\<open>a@b\<close> and \<^verbatim>\<open>ab.com\<close>, and accepts \<^verbatim>\<open>a@b.co\<close>.
\<close>

theorem email_passes_iff:
  "(validators_email v = [] \<longleftrightarrow>
      trim v \<noteq> [] \<and>
      (\<exists>a b c. v = a @ 0x40 # b @ 0x2E # c \<and> a \<noteq> [] \<and> b \<noteq> [] \<and> c \<noteq> [] \<and>
         list_all notSpaceAt a \<and> list_all notSpaceAt b \<and> list_all notSpaceAt c))
   \<and> validators_email [] \<noteq> []
   \<and> validators_email (js ''a@b'') \<noteq> []
   \<and> validators_email (js ''ab.com'') \<noteq> []
   \<and> validators_email (js ''a@b.co'') = []"
proof -
  have "validators_email v = [] \<longleftrightarrow> trim v \<noteq> [] \<and> test emailRegex v"
    by (simp add: validators_email_def)
  moreover have "validators_email [] \<noteq> []"
    by (simp add: validators_email_def trim_def)
  moreover have "validators_email (js ''a@b'') \<noteq> []"
    by (simp add: validators_email_def js_def trim_def isWhiteSpace_def emailRegex_def notSpaceAt_def)
  moreover have "validators_email (js ''ab.com'') \<noteq> []"
    by (simp add: validators_email_def js_def trim_def isWhiteSpace_def emailRegex_def notSpaceAt_def)
  moreover have "validators_email (js ''a@b.co'') = []"
    by (simp add: validators_email_def js_def trim_def isWhiteSpace_def emailRegex_def notSpaceAt_def)
  ultimately show ?thesis
    unfolding test_emailRegex by simp
qed

text \<open>
  Claim C5. With the password field on the page, the \<open>confirmPassword\<close> validator passes
  if and only if its input is non-empty and equal to the value which the password field has
  at the moment of the call. When the password field is changed after a passing validation
  to a value that differs from the confirm value, validating the same confirm value again
  fails.
\<close>

theorem confirmPassword_live:
  "(validators_confirmPassword (doc(''signUpPassword'' \<mapsto> pw)) v = [] \<longleftrightarrow>
      v \<noteq> [] \<and> v = ivalue pw)
   \<and> (validators_confirmPassword (doc(''signUpPassword'' \<mapsto> pw)) v = [] \<and> p' \<noteq> v \<longrightarrow>
      validators_confirmPassword (doc(''signUpPassword'' \<mapsto> pw\<lparr>ivalue := p'\<rparr>)) v \<noteq> [])"
  by (auto simp: validators_confirmPassword_def)

theorem confirmPassword_live_witness:
  "validators_confirmPassword
     (Map.empty(''signUpPassword'' \<mapsto> \<lparr>ivalue = js ''secret1'', classList = {}, errorMessage = []\<rparr>))
     (js ''secret1'') = []
   \<and> js ''secret2'' \<noteq> js ''secret1''
   \<and> validators_confirmPassword
     (Map.empty(''signUpPassword'' \<mapsto> \<lparr>ivalue = js ''secret2'', classList = {}, errorMessage = []\<rparr>))
     (js ''secret1'') \<noteq> []"
  using confirmPassword_live [of Map.empty
      "\<lparr>ivalue = js ''secret1'', classList = {}, errorMessage = []\<rparr>" "js ''secret1''" "js ''secret2''"]
  by (simp add: js_def)

section \<open>The rate limiter in time\<close>

text \<open>
  Claim C3. For a rate limiter with an interval of 2000 ms: \<open>canProceed\<close> returns true
  exactly when at least 2000 ms have passed since \<open>lastCall\<close>, and then records the
  current time as \<open>lastCall\<close>. After a call accepted at \<open>t0\<close>, a second call at \<open>t1\<close>
  less than 2000 ms later returns false; at any time \<open>t2\<close> of that window
  \<open>getRemainingTime\<close> is positive and at most 2000; and a call at \<open>t3\<close>, 2000 ms or more
  after \<open>t0\<close>, returns true again. \<open>getRemainingTime\<close> is always
  \<open>max 0 (intervalMs - elapsed)\<close>.
\<close>

theorem rateLimiter_cooldown:
  assumes "intervalMs l = 2000"
  shows "(fst (canProceed t0 l) \<longleftrightarrow> 2000 \<le> t0 - lastCall l)
    \<and> (2000 \<le> t0 - lastCall l \<longrightarrow> lastCall (snd (canProceed t0 l)) = t0)
    \<and> (fst (canProceed t0 l) \<and> t1 < t0 + 2000 \<longrightarrow>
          \<not> fst (canProceed t1 (snd (canProceed t0 l)))
          \<and> (t0 \<le> t2 \<and> t2 < t0 + 2000 \<longrightarrow>
               0 < getRemainingTime t2 (snd (canProceed t1 (snd (canProceed t0 l))))
               \<and> getRemainingTime t2 (snd (canProceed t1 (snd (canProceed t0 l)))) \<le> 2000)
          \<and> (t0 + 2000 \<le> t3 \<longrightarrow>
               fst (canProceed t3 (snd (canProceed t1 (snd (canProceed t0 l)))))))
    \<and> getRemainingTime t l = max 0 (intervalMs l - (t - lastCall l))"
  using assms by (auto simp: canProceed_def getRemainingTime_def)

theorem rateLimiter_cooldown_witness:
  "intervalMs (createRateLimiter 2000) = 2000
   \<and> fst (canProceed 5000 (createRateLimiter 2000))
   \<and> \<not> fst (canProceed 5500 (snd (canProceed 5000 (createRateLimiter 2000))))
   \<and> getRemainingTime 5600
        (snd (canProceed 5500 (snd (canProceed 5000 (createRateLimiter 2000))))) = 1400
   \<and> fst (canProceed 7000 (snd (canProceed 5500 (snd (canProceed 5000 (createRateLimiter 2000))))))"
  using rateLimiter_cooldown [of "createRateLimiter 2000" 5000 5500 5600 7000 5600]
  by (simp add: createRateLimiter_def canProceed_def getRemainingTime_def)

text \<open>
  Claim C4, as amended. A rejected call of \<open>canProceed\<close> leaves \<open>lastCall\<close> and the
  interval as they were, so it neither resets nor extends the cooldown: the remaining time
  and the outcome of any later call are what they would have been without it. The one
  variable it writes is \<open>isLimited\<close>, which it sets to true.
\<close>

theorem rejected_call_keeps_cooldown:
  assumes "\<not> fst (canProceed now l)"
  shows "snd (canProceed now l) = l\<lparr>isLimited := True\<rparr>
    \<and> lastCall (snd (canProceed now l)) = lastCall l
    \<and> intervalMs (snd (canProceed now l)) = intervalMs l
    \<and> getRemainingTime t (snd (canProceed now l)) = getRemainingTime t l
    \<and> fst (canProceed t (snd (canProceed now l))) = fst (canProceed t l)"
  using assms by (auto simp: canProceed_def getRemainingTime_def split: if_splits)

theorem rejected_call_keeps_cooldown_witness:
  "\<not> fst (canProceed 5500 \<lparr>intervalMs = 2000, lastCall = 5000, isLimited = False\<rparr>)
   \<and> snd (canProceed 5500 \<lparr>intervalMs = 2000, lastCall = 5000, isLimited = False\<rparr>)
       = \<lparr>intervalMs = 2000, lastCall = 5000, isLimited = True\<rparr>
   \<and> getRemainingTime 6000 (snd (canProceed 5500 \<lparr>intervalMs = 2000, lastCall = 5000, isLimited = False\<rparr>))
       = 1000"
  using rejected_call_keeps_cooldown [of 5500 "\<lparr>intervalMs = 2000, lastCall = 5000, isLimited = False\<rparr>" 6000]
  by (simp add: canProceed_def getRemainingTime_def)

theorem rejected_call_state_counterexample:
  "\<not> fst (canProceed 5500 (snd (canProceed 5000 (createRateLimiter 2000))))
   \<and> snd (canProceed 5500 (snd (canProceed 5000 (createRateLimiter 2000))))
       \<noteq> snd (canProceed 5000 (createRateLimiter 2000))
   \<and> \<not> isCurrentlyLimited (snd (canProceed 5000 (createRateLimiter 2000)))
   \<and> isCurrentlyLimited (snd (canProceed 5500 (snd (canProceed 5000 (createRateLimiter 2000)))))"
  by (simp add: createRateLimiter_def canProceed_def isCurrentlyLimited_def)

section \<open>The token\<close>

lemma digitChar_hex: "d < 16 \<Longrightarrow> digitChar d \<in> set ''0123456789abcdef''"
proof -
  assume "d < 16"
  then have "d = 0 \<or> d = 1 \<or> d = 2 \<or> d = 3 \<or> d = 4 \<or> d = 5 \<or> d = 6 \<or> d = 7 \<or>
      d = 8 \<or> d = 9 \<or> d = 10 \<or> d = 11 \<or> d = 12 \<or> d = 13 \<or> d = 14 \<or> d = 15"
    by arith
  then show ?thesis
    by (auto simp: digitChar_def)
qed

lemma byte_hex:
  assumes "n < 256"
  shows "padStart 2 ''0'' (toString 16 n) = [digitChar (n div 16), digitChar (n mod 16)]"
proof (cases "n < 16")
  case True
  then have "toString 16 n = [digitChar n]"
    by (simp add: toString.simps [of 16 n])
  with True show ?thesis
    by (simp add: padStart_def digitChar_def)
next
  case False
  with assms have "n div 16 < 16" by simp
  then have "toString 16 (n div 16) = [digitChar (n div 16)]"
    by (simp add: toString.simps [of 16 "n div 16"])
  with False have "toString 16 n = [digitChar (n div 16), digitChar (n mod 16)]"
    by (simp add: toString.simps [of 16 n])
  then show ?thesis
    by (simp add: padStart_def)
qed

lemma unat_byte: "unat (b :: 8 word) < 256"
  using unsigned_less [of b, where ?'a = nat] by simp

lemma generateToken_fst:
  "fst (generateToken p) =
     js (concat (map (\<lambda>i. [digitChar (unat (entropy p i) div 16), digitChar (unat (entropy p i) mod 16)])
           [0..<32]))"
  by (simp add: generateToken_def getRandomValues_def Let_def byte_hex unat_byte comp_def del: upt_Suc)

lemma length_concat_pairs: "length (concat (map (\<lambda>i. [f i, g i]) xs)) = 2 * length xs"
  by (induction xs) simp_all

lemma generateToken_length: "length (fst (generateToken p)) = 64"
  unfolding generateToken_fst by (simp add: js_def length_concat_pairs del: upt_Suc)

lemma generateToken_hex:
  "list_all (\<lambda>c. c \<in> set (js ''0123456789abcdef'')) (fst (generateToken p))"
proof -
  have hi: "\<And>b :: 8 word. digitChar (unat b div 16) \<in> set ''0123456789abcdef''"
    using unat_byte by (intro digitChar_hex) (simp add: less_mult_imp_div_less)
  have lo: "\<And>b :: 8 word. digitChar (unat b mod 16) \<in> set ''0123456789abcdef''"
    by (intro digitChar_hex) simp
  have "\<forall>x \<in> set (concat (map (\<lambda>i. [digitChar (unat (entropy p i) div 16),
        digitChar (unat (entropy p i) mod 16)]) [0..<32])). x \<in> set ''0123456789abcdef''"
  proof
    fix x
    assume "x \<in> set (concat (map (\<lambda>i. [digitChar (unat (entropy p i) div 16),
        digitChar (unat (entropy p i) mod 16)]) [0..<32]))"
    then obtain i where "x = digitChar (unat (entropy p i) div 16) \<or>
        x = digitChar (unat (entropy p i) mod 16)"
      by (auto simp del: upt_Suc)
    with hi lo show "x \<in> set ''0123456789abcdef''" by metis
  qed
  then show ?thesis
    unfolding generateToken_fst js_def list_all_iff set_map by blast
qed

lemma generateToken_state:
  "token (snd (generateToken p)) = Some (fst (generateToken p))"
  by (simp add: generateToken_def getRandomValues_def Let_def)

section \<open>The form gate\<close>

lemma validators_cong:
  "map_option ivalue (doc ''signUpPassword'') = map_option ivalue (doc' ''signUpPassword'')
   \<Longrightarrow> validators k doc v = validators k doc' v"
  by (cases k) (simp_all add: validators_confirmPassword_def)

lemma validateField_ivalue: "ivalue (snd (validateField doc inp k)) = ivalue inp"
  by (simp add: validateField_def Let_def)

lemma querySelector_Some:
  "querySelector doc frm s = Inr (Some (j, inp)) \<Longrightarrow> doc j = Some inp"
  by (auto simp: querySelector_def selectOther_def
      split: list.splits if_splits sum.splits option.splits)

lemma querySelector_plain:
  "plainIdentifier i \<Longrightarrow>
     querySelector doc frm (CHR ''#'' # i) =
       Inr (if i \<in> members frm then map_option (Pair i) (doc i) else None)"
  by (simp add: querySelector_def)

text \<open>What a selection shows of the document: which element, and its value.\<close>

lemma map_option_key_value:
  "map_option (\<lambda>(j, inp). (j, ivalue inp)) (map_option (Pair i) x)
     = map_option (Pair i) (map_option ivalue x)"
  by (cases x) simp_all

lemma key_value_sel:
  "r = Inl e \<longleftrightarrow> map_sum id (map_option (\<lambda>(j, inp). (j, ivalue inp))) r = Inl e"
  "r = Inr None \<longleftrightarrow> map_sum id (map_option (\<lambda>(j, inp). (j, ivalue inp))) r = Inr None"
  "(\<exists>inp. r = Inr (Some (j, inp)) \<and> ivalue inp = v) \<longleftrightarrow>
     map_sum id (map_option (\<lambda>(j, inp). (j, ivalue inp))) r = Inr (Some (j, v))"
proof -
  show "r = Inl e \<longleftrightarrow> map_sum id (map_option (\<lambda>(j, inp). (j, ivalue inp))) r = Inl e"
    by (cases r) auto
  show "r = Inr None \<longleftrightarrow> map_sum id (map_option (\<lambda>(j, inp). (j, ivalue inp))) r = Inr None"
    by (cases r) auto
  show "(\<exists>inp. r = Inr (Some (j, inp)) \<and> ivalue inp = v) \<longleftrightarrow>
     map_sum id (map_option (\<lambda>(j, inp). (j, ivalue inp))) r = Inr (Some (j, v))"
  proof (cases r)
    case (Inl a)
    then show ?thesis by simp
  next
    case (Inr x)
    then show ?thesis by (cases x) auto
  qed
qed

lemma selectOther_cong:
  assumes "\<And>j. map_option ivalue (doc' j) = map_option ivalue (doc j)"
  shows "map_sum id (map_option (\<lambda>(j, inp). (j, ivalue inp))) (selectOther doc' frm s)
       = map_sum id (map_option (\<lambda>(j, inp). (j, ivalue inp))) (selectOther doc frm s)"
  by (simp add: selectOther_def map_option_key_value assms split: sum.splits option.splits)

lemma querySelector_cong:
  assumes "\<And>j. map_option ivalue (doc' j) = map_option ivalue (doc j)"
  shows "map_sum id (map_option (\<lambda>(j, inp). (j, ivalue inp))) (querySelector doc' frm s)
       = map_sum id (map_option (\<lambda>(j, inp). (j, ivalue inp))) (querySelector doc frm s)"
  by (simp add: querySelector_def map_option_key_value assms selectOther_cong [OF assms]
      split: list.splits)

lemma querySelector_cong_cases:
  assumes "\<And>j. map_option ivalue (doc' j) = map_option ivalue (doc j)"
  shows "(querySelector doc' frm s = Inl e \<longleftrightarrow> querySelector doc frm s = Inl e)"
    and "(querySelector doc' frm s = Inr None \<longleftrightarrow> querySelector doc frm s = Inr None)"
    and "(\<exists>inp'. querySelector doc' frm s = Inr (Some (j, inp')) \<and> ivalue inp' = v)
         \<longleftrightarrow> (\<exists>inp. querySelector doc frm s = Inr (Some (j, inp)) \<and> ivalue inp = v)"
  unfolding key_value_sel querySelector_cong [of doc' doc frm s, OF assms] by simp_all

lemma forEach_values:
  "map_option ivalue (snd (validateForm_forEach frm fs b doc) j) = map_option ivalue (doc j)"
proof (induction fs arbitrary: b doc)
  case Nil
  then show ?case by simp
next
  case (Cons f fs)
  obtain i k where f: "f = (i, k)" by (cases f)
  show ?case
  proof (cases "querySelector doc frm (CHR ''#'' # i)")
    case (Inl e)
    with f show ?thesis by simp
  next
    case (Inr sel)
    show ?thesis
    proof (cases sel)
      case None
      with f Inr Cons.IH show ?thesis by simp
    next
      case (Some a)
      obtain j' inp where a: "a = (j', inp)" by (cases a)
      with Inr Some have "doc j' = Some inp"
        by (auto dest: querySelector_Some)
      with f Inr Some a Cons.IH validateField_ivalue [of doc inp k] show ?thesis
        by (simp add: split_beta)
    qed
  qed
qed

lemma forEach_validators:
  "validators k (snd (validateForm_forEach frm fs b doc)) v = validators k doc v"
  by (rule validators_cong) (rule forEach_values)


lemma field_outcome_cong:
  assumes "\<And>j. map_option ivalue (doc' j) = map_option ivalue (doc j)"
  shows "field_outcome doc' frm f = field_outcome doc frm f"
proof -
  obtain i k where f: "f = (i, k)" by (cases f)
  have v: "\<And>v. validators k doc' v = validators k doc v"
    by (rule validators_cong) (rule assms)
  note c = querySelector_cong [of doc' doc frm "CHR ''#'' # i", OF assms]
  show ?thesis
  proof (cases "querySelector doc frm (CHR ''#'' # i)")
    case (Inl e)
    with c have "querySelector doc' frm (CHR ''#'' # i) = Inl e"
      by (cases "querySelector doc' frm (CHR ''#'' # i)") auto
    with Inl f show ?thesis by simp
  next
    case (Inr sel)
    show ?thesis
    proof (cases sel)
      case None
      with c Inr have "querySelector doc' frm (CHR ''#'' # i) = Inr None"
        by (cases "querySelector doc' frm (CHR ''#'' # i)") auto
      with Inr None f show ?thesis by simp
    next
      case (Some a)
      obtain j inp where a: "a = (j, inp)" by (cases a)
      have "\<exists>inp'. querySelector doc' frm (CHR ''#'' # i) = Inr (Some (j, inp')) \<and>
          ivalue inp' = ivalue inp"
        using Inr Some a querySelector_cong_cases(3) [of doc' doc frm "CHR ''#'' # i" j "ivalue inp", OF assms]
        by blast
      then obtain inp' where "querySelector doc' frm (CHR ''#'' # i) = Inr (Some (j, inp'))"
        and "ivalue inp' = ivalue inp" by blast
      with Inr Some a f v show ?thesis by simp
    qed
  qed
qed

lemma forEach_result:
  "fst (validateForm_forEach frm fs b doc) = all_outcomes b (map (field_outcome doc frm) fs)"
proof (induction fs arbitrary: b doc)
  case Nil
  then show ?case by simp
next
  case (Cons f fs)
  obtain i k where f: "f = (i, k)" by (cases f)
  show ?case
  proof (cases "querySelector doc frm (CHR ''#'' # i)")
    case (Inl e)
    with f show ?thesis by simp
  next
    case (Inr sel)
    show ?thesis
    proof (cases sel)
      case None
      with f Inr Cons.IH show ?thesis by simp
    next
      case (Some a)
      obtain j inp where a: "a = (j, inp)" by (cases a)
      with Inr Some have d: "doc j = Some inp"
        by (auto dest: querySelector_Some)
      obtain ok inp' where vf: "validateField doc inp k = (ok, inp')"
        by (cases "validateField doc inp k")
      then have ok: "ok \<longleftrightarrow> validators k doc (ivalue inp) = []"
        and v': "ivalue inp' = ivalue inp"
        by (auto simp: validateField_def Let_def split: if_splits)
      have "\<And>x. map_option ivalue ((doc(j \<mapsto> inp')) x) = map_option ivalue (doc x)"
        using d v' by simp
      then have "field_outcome (doc(j \<mapsto> inp')) frm = field_outcome doc frm"
        by (intro ext field_outcome_cong)
      then have eq: "map (field_outcome (doc(j \<mapsto> inp')) frm) fs = map (field_outcome doc frm) fs"
        by simp
      have IH: "fst (validateForm_forEach frm fs (if \<not> ok then False else b) (doc(j \<mapsto> inp')))
          = all_outcomes (if \<not> ok then False else b) (map (field_outcome (doc(j \<mapsto> inp')) frm) fs)"
        by (rule Cons.IH)
      have step: "validateForm_forEach frm (f # fs) b doc =
          validateForm_forEach frm fs (if \<not> ok then False else b) (doc(j \<mapsto> inp'))"
        using f Inr Some a vf by simp
      have fo: "field_outcome doc frm f = Inr ok"
        using f Inr Some a ok by simp
      show ?thesis
        unfolding step IH eq by (cases ok) (simp_all add: fo)
    qed
  qed
qed












text \<open>
  An id that is empty or starts with a digit is not skipped: the selector does not parse,
  and \<open>validateForm\<close> throws at that spec.
\<close>

lemma validateForm_malformed_id:
  "malformedId i \<Longrightarrow> validateForm doc frm ((i, k) # fs) = (Inl SyntaxError, doc)"
proof -
  assume m: "malformedId i"
  then have "\<not> plainIdentifier i"
    by (auto simp: malformedId_def plainIdentifier_def split: list.splits)
  with m show ?thesis
    by (simp add: validateForm_def querySelector_def)
qed

lemma validateField_twice:
  "validateField doc (snd (validateField doc inp k)) k = validateField doc inp k"
  by (auto simp: validateField_def Let_def)

text \<open>
  Claim C9. The result of a validator is a function of its rule, its input and the value of
  the password field: two documents in which the password field has the same value give the
  same result. A validation call updates nothing that a validator reads: after
  \<open>validateForm\<close> every validator gives the result it gave before, validating a field a
  second time gives the same outcome and leaves the field as the first validation left it,
  and validating the form a second time gives the same answer.
\<close>

theorem validators_deterministic:
  "(map_option ivalue (doc ''signUpPassword'') = map_option ivalue (doc' ''signUpPassword'') \<longrightarrow>
      validators k doc v = validators k doc' v)
   \<and> validators k (snd (validateForm doc frm fs)) v = validators k doc v
   \<and> validateField doc (snd (validateField doc inp k)) k = validateField doc inp k
   \<and> fst (validateForm (snd (validateForm doc frm fs)) frm fs) = fst (validateForm doc frm fs)"
proof (intro conjI impI)
  assume "map_option ivalue (doc ''signUpPassword'') = map_option ivalue (doc' ''signUpPassword'')"
  then show "validators k doc v = validators k doc' v" by (rule validators_cong)
next
  show "validators k (snd (validateForm doc frm fs)) v = validators k doc v"
    unfolding validateForm_def by (rule forEach_validators)
next
  show "validateField doc (snd (validateField doc inp k)) k = validateField doc inp k"
    by (rule validateField_twice)
next
  have "field_outcome (snd (validateForm doc frm fs)) frm = field_outcome doc frm"
    unfolding validateForm_def by (intro ext field_outcome_cong forEach_values)
  then show "fst (validateForm (snd (validateForm doc frm fs)) frm fs) = fst (validateForm doc frm fs)"
    by (simp add: validateForm_def forEach_result)
qed



theorem validators_deterministic_witness:
  "map_option ivalue
     ((Map.empty(''signUpPassword'' \<mapsto> \<lparr>ivalue = js ''secret1'', classList = {}, errorMessage = []\<rparr>))
        ''signUpPassword'')
   = map_option ivalue
     ((Map.empty(''signUpPassword'' \<mapsto>
         \<lparr>ivalue = js ''secret1'', classList = {''error''}, errorMessage = ''x''\<rparr>))
        ''signUpPassword'')
   \<and> validators ConfirmPassword
       (Map.empty(''signUpPassword'' \<mapsto> \<lparr>ivalue = js ''secret1'', classList = {}, errorMessage = []\<rparr>))
       (js ''secret1'')
     = validators ConfirmPassword
       (Map.empty(''signUpPassword'' \<mapsto>
          \<lparr>ivalue = js ''secret1'', classList = {''error''}, errorMessage = ''x''\<rparr>))
       (js ''secret1'')"
  using validators_deterministic [of
      "Map.empty(''signUpPassword'' \<mapsto> \<lparr>ivalue = js ''secret1'', classList = {}, errorMessage = []\<rparr>)"
      "Map.empty(''signUpPassword'' \<mapsto>
          \<lparr>ivalue = js ''secret1'', classList = {''error''}, errorMessage = ''x''\<rparr>)"
      ConfirmPassword "js ''secret1''", THEN conjunct1]
  by simp

section \<open>The token and the random stream\<close>

lemma generateToken_snd:
  "snd (generateToken p) =
     p\<lparr>entropy := (\<lambda>i. entropy p (i + 32)), token := Some (fst (generateToken p))\<rparr>"
  by (simp add: generateToken_def getRandomValues_def Let_def)

lemma digitChar_inj:
  assumes "a < 16" "b < 16" "digitChar a = digitChar b"
  shows "a = b"
proof -
  have "distinct ''0123456789abcdefghijklmnopqrstuvwxyz''" by simp
  moreover have "a < length ''0123456789abcdefghijklmnopqrstuvwxyz''"
    and "b < length ''0123456789abcdefghijklmnopqrstuvwxyz''"
    using assms by simp_all
  ultimately show ?thesis
    using assms(3) unfolding digitChar_def by (simp only: nth_eq_iff_index_eq)
qed

lemma byte_digits_inj:
  fixes a b :: "8 word"
  assumes "digitChar (unat a div 16) = digitChar (unat b div 16)"
    and "digitChar (unat a mod 16) = digitChar (unat b mod 16)"
  shows "a = b"
proof -
  have "unat a div 16 < 16" "unat b div 16 < 16"
    using unat_byte [of a] unat_byte [of b] by (simp_all add: less_mult_imp_div_less)
  with assms(1) have d: "unat a div 16 = unat b div 16" by (rule digitChar_inj [rotated 2])
  have "unat a mod 16 < 16" "unat b mod 16 < 16" by simp_all
  with assms(2) have m: "unat a mod 16 = unat b mod 16" by (rule digitChar_inj [rotated 2])
  have "unat a = 16 * (unat a div 16) + unat a mod 16" by simp
  also have "\<dots> = 16 * (unat b div 16) + unat b mod 16" by (simp only: d m)
  also have "\<dots> = unat b" by simp
  finally show ?thesis by (simp only: word_unat_eq_iff)
qed

lemma concat_pairs_inj:
  assumes "length xs = length ys"
    and "concat (map (\<lambda>x. [f x, g x]) xs) = concat (map (\<lambda>x. [f x, g x]) ys)"
  shows "\<forall>n < length xs. f (xs ! n) = f (ys ! n) \<and> g (xs ! n) = g (ys ! n)"
  using assms
proof (induction xs ys rule: list_induct2)
  case Nil
  then show ?case by simp
next
  case (Cons x xs y ys)
  then show ?case by (auto simp: nth_Cons split: nat.splits)
qed

lemma js_inj: "js a = js b \<Longrightarrow> a = b"
proof -
  have "inj (of_char :: char \<Rightarrow> 16 word)"
  proof (rule injI)
    fix c d :: char
    assume e: "(of_char c :: 16 word) = of_char d"
    have "unat (of_char c :: 16 word) = of_char c" for c :: char
    proof -
      have "(of_char c :: nat) < 256" by simp
      also have "(256 :: nat) < 2 ^ 16" by simp
      finally have "(of_char c :: nat) < 2 ^ LENGTH(16)" by simp
      then have "unat (of_nat (of_char c) :: 16 word) = of_char c"
        by (simp only: unat_of_nat mod_less)
      then show ?thesis by (simp add: of_nat_of_char)
    qed
    with e have "(of_char c :: nat) = of_char d" by metis
    then show "c = d" by simp
  qed
  then have "inj (map (of_char :: char \<Rightarrow> 16 word))" by simp
  moreover assume "js a = js b"
  ultimately show ?thesis by (simp add: js_def inj_eq)
qed

lemma generateToken_inj:
  "fst (generateToken q) = fst (generateToken p)
     \<longleftrightarrow> map (entropy q) [0..<32] = map (entropy p) [0..<32]"
proof
  assume "fst (generateToken q) = fst (generateToken p)"
  then have "concat (map (\<lambda>b. [digitChar (unat b div 16), digitChar (unat b mod 16)])
        (map (entropy q) [0..<32]))
      = concat (map (\<lambda>b. [digitChar (unat b div 16), digitChar (unat b mod 16)])
        (map (entropy p) [0..<32]))"
    by (simp add: generateToken_fst comp_def js_inj del: upt_Suc)
  from concat_pairs_inj [OF _ this]
  have "\<forall>n < 32. entropy q n = entropy p n"
    by (auto simp del: upt_Suc intro: byte_digits_inj)
  then show "map (entropy q) [0..<32] = map (entropy p) [0..<32]"
    by (simp del: upt_Suc)
next
  assume "map (entropy q) [0..<32] = map (entropy p) [0..<32]"
  then have "\<forall>i \<in> set [0..<32]. entropy q i = entropy p i"
    by (simp only: map_eq_conv)
  then have "map (\<lambda>i. [digitChar (unat (entropy q i) div 16), digitChar (unat (entropy q i) mod 16)])
        [0..<32]
      = map (\<lambda>i. [digitChar (unat (entropy p i) div 16), digitChar (unat (entropy p i) mod 16)])
        [0..<32]"
    by (intro map_cong refl) simp
  then show "fst (generateToken q) = fst (generateToken p)"
    by (simp only: generateToken_fst)
qed

lemma generateToken_nonempty: "fst (generateToken p) \<noteq> []"
  using generateToken_length [of p] by auto

lemma getToken_cases:
  "getToken p = (if token p = None \<or> token p = Some [] then generateToken p else (the (token p), p))"
  by (auto simp: getToken_def split: option.splits)

lemma getToken_state: "token (snd (getToken p)) = Some (fst (getToken p))"
  by (auto simp: getToken_cases generateToken_state)

lemma getToken_fst_nonempty: "fst (getToken p) \<noteq> []"
  by (auto simp: getToken_cases generateToken_nonempty)

lemma getToken_twice: "getToken (snd (getToken p)) = (fst (getToken p), snd (getToken p))"
  using getToken_state [of p] getToken_fst_nonempty [of p]
  by (simp add: getToken_cases [of "snd (getToken p)"])

lemma getToken_frame:
  "entropy q = entropy p \<Longrightarrow> token q = token p \<Longrightarrow> fst (getToken q) = fst (getToken p)"
  by (simp add: getToken_cases generateToken_fst)

lemma getToken_entropy:
  "entropy (snd (getToken p)) =
     (if token p = None \<or> token p = Some [] then (\<lambda>i. entropy p (i + 32)) else entropy p)"
  by (simp add: getToken_cases generateToken_snd)

lemma getToken_entropy_frame:
  "entropy q = entropy p \<Longrightarrow> token q = token p \<Longrightarrow>
     entropy (snd (getToken q)) = entropy (snd (getToken p))"
  by (simp add: getToken_entropy)

lemma getToken_other:
  "document (snd (getToken p)) = document p"
  "signInForm (snd (getToken p)) = signInForm p"
  "signUpForm (snd (getToken p)) = signUpForm p"
  "signInButton (snd (getToken p)) = signInButton p"
  "signUpButton (snd (getToken p)) = signUpButton p"
  "signInRateLimiter (snd (getToken p)) = signInRateLimiter p"
  "signUpRateLimiter (snd (getToken p)) = signUpRateLimiter p"
  "rememberMe (snd (getToken p)) = rememberMe p"
  "localStorage (snd (getToken p)) = localStorage p"
  "toasts (snd (getToken p)) = toasts p"
  "containerActive (snd (getToken p)) = containerActive p"
  "history (snd (getToken p)) = history p"
  "page.more (snd (getToken p)) = page.more p"
  by (simp_all add: getToken_cases generateToken_snd)

lemma getToken_eq:
  "getToken p =
     (fst (getToken p),
      p\<lparr>token := Some (fst (getToken p)), entropy := entropy (snd (getToken p))\<rparr>)"
proof -
  have "snd (getToken p) =
      p\<lparr>token := Some (fst (getToken p)), entropy := entropy (snd (getToken p))\<rparr>"
    by (rule page.equality) (simp_all add: getToken_other getToken_state)
  then show ?thesis by (metis prod.collapse)
qed

lemma generateToken_eq:
  "generateToken p =
     (fst (generateToken p),
      p\<lparr>token := Some (fst (generateToken p)), entropy := (\<lambda>i. entropy p (i + 32))\<rparr>)"
proof -
  have "snd (generateToken p) =
      p\<lparr>token := Some (fst (generateToken p)), entropy := (\<lambda>i. entropy p (i + 32))\<rparr>"
    by (rule page.equality) (simp_all add: generateToken_snd)
  then show ?thesis by (metis prod.collapse)
qed

lemma generateToken_frame:
  "entropy q = entropy p \<Longrightarrow> fst (generateToken q) = fst (generateToken p)"
  by (simp add: generateToken_fst)

section \<open>The submit handlers\<close>

lemma all_outcomes_no_error:
  "(\<forall>r \<in> set rs. \<exists>ok. r = Inr ok) \<Longrightarrow> \<exists>b'. all_outcomes b rs = Inr b'"
  by (induction rs arbitrary: b) auto

lemma field_outcome_plain:
  "plainIdentifier (fst f) \<Longrightarrow> \<exists>ok. field_outcome doc frm f = Inr ok"
  by (cases f) (auto simp: querySelector_plain split: option.splits)

lemma validateForm_plain:
  assumes "\<forall>f \<in> set fs. plainIdentifier (fst f)"
  shows "\<exists>ok. fst (validateForm doc frm fs) = Inr ok"
  unfolding validateForm_def forEach_result
  using assms by (intro all_outcomes_no_error) (auto dest: field_outcome_plain)

lemma signInFields_plain: "\<forall>f \<in> set signInFields. plainIdentifier (fst f)"
  by (simp add: signInFields_def plainIdentifier_def)

lemma signUpFields_plain: "\<forall>f \<in> set signUpFields. plainIdentifier (fst f)"
  by (simp add: signUpFields_def plainIdentifier_def)

lemma signInForm_submit_rejected:
  assumes "\<not> fst (canProceed now (signInRateLimiter p))"
  shows "signInForm_submit now later fd p =
     (False,
      p\<lparr>signInRateLimiter := snd (canProceed now (signInRateLimiter p)),
        toasts := toasts p @
          [(waitMessage (getRemainingTime later (snd (canProceed now (signInRateLimiter p)))), Error)],
        history := history p @
          [CanProceed False,
           ShowToast (waitMessage (getRemainingTime later (snd (canProceed now (signInRateLimiter p)))))
             Error]\<rparr>)"
  using assms
  by (simp add: signInForm_submit_def rateLimiter_canProceed_def showToast_def logEvent_def
      split_beta Let_def)

lemma signInForm_submit_invalid:
  assumes "fst (canProceed now (signInRateLimiter p))"
    and "fst (validateForm (document p) (signInForm p) signInFields) = Inr False"
  shows "signInForm_submit now later fd p =
     (False,
      p\<lparr>signInRateLimiter := snd (canProceed now (signInRateLimiter p)),
        document := snd (validateForm (document p) (signInForm p) signInFields),
        toasts := toasts p @ [(''Please fix the errors above'', Error)],
        history := history p @
          [CanProceed True, ValidateForm (Inr False),
           ShowToast ''Please fix the errors above'' Error]\<rparr>)"
  using assms
  by (simp add: signInForm_submit_def rateLimiter_canProceed_def page_validateForm_def
      showToast_def logEvent_def split_beta Let_def)

lemma addToFormData_eq:
  "addToFormData fd q =
     (fd @ [(''_csrf'', fst (getToken q))],
      q\<lparr>token := Some (fst (getToken q)), entropy := entropy (snd (getToken q)),
        history := history q @ [AddToFormData (fd @ [(''_csrf'', fst (getToken q))])]\<rparr>)"
proof -
  have "snd (addToFormData fd q) =
      q\<lparr>token := Some (fst (getToken q)), entropy := entropy (snd (getToken q)),
        history := history q @ [AddToFormData (fd @ [(''_csrf'', fst (getToken q))])]\<rparr>"
    by (rule page.equality)
      (simp_all add: addToFormData_def split_beta Let_def logEvent_def getToken_other
        getToken_state)
  moreover have "fst (addToFormData fd q) = fd @ [(''_csrf'', fst (getToken q))]"
    by (simp add: addToFormData_def split_beta Let_def)
  ultimately show ?thesis by (metis prod.collapse)
qed

lemma getToken_set: "token q = Some t \<Longrightarrow> t \<noteq> [] \<Longrightarrow> getToken q = (t, q)"
  by (simp add: getToken_def)

lemma signInForm_submit_accepted:
  assumes "fst (canProceed now (signInRateLimiter p))"
    and "fst (validateForm (document p) (signInForm p) signInFields) = Inr True"
  shows "signInForm_submit now later fd p =
     (True,
      p\<lparr>signInRateLimiter := snd (canProceed now (signInRateLimiter p)),
        document := snd (validateForm (document p) (signInForm p) signInFields),
        token := Some (fst (getToken p)),
        entropy := entropy (snd (getToken p)),
        signInButton := (signInButton p)
          \<lparr>buttonClassList := insert ''loading'' (buttonClassList (signInButton p)),
           disabled := True\<rparr>,
        history := history p @
          [CanProceed True, ValidateForm (Inr True),
           AddToFormData (fd @ [(''_csrf'', fst (getToken p))]), ConsoleLog (fst (getToken p)),
           ButtonLoading, SetTimeout 1500]\<rparr>)"
proof -
  let ?p2 = "p\<lparr>signInRateLimiter := snd (canProceed now (signInRateLimiter p)),
      document := snd (validateForm (document p) (signInForm p) signInFields),
      history := history p @ [CanProceed True, ValidateForm (Inr True)]\<rparr>"
  have t: "fst (getToken ?p2) = fst (getToken p)"
    by (rule getToken_frame) simp_all
  have e: "entropy (snd (getToken ?p2)) = entropy (snd (getToken p))"
    by (rule getToken_entropy_frame) simp_all
  note a = addToFormData_eq [of fd ?p2, unfolded t e]
  have b: "getToken (snd (addToFormData fd ?p2)) = (fst (getToken p), snd (addToFormData fd ?p2))"
    by (rule getToken_set) (simp_all add: a getToken_fst_nonempty)
  have "signInForm_submit now later fd p =
      (True, simulateFormSubmission_start signInButton_update
         (consoleLog (fst (getToken p)) (snd (addToFormData fd ?p2))))"
    using assms b
    by (simp add: signInForm_submit_def rateLimiter_canProceed_def page_validateForm_def
        logEvent_def split_beta Let_def)
  also have "simulateFormSubmission_start signInButton_update
         (consoleLog (fst (getToken p)) (snd (addToFormData fd ?p2))) =
      p\<lparr>signInRateLimiter := snd (canProceed now (signInRateLimiter p)),
        document := snd (validateForm (document p) (signInForm p) signInFields),
        token := Some (fst (getToken p)),
        entropy := entropy (snd (getToken p)),
        signInButton := (signInButton p)
          \<lparr>buttonClassList := insert ''loading'' (buttonClassList (signInButton p)),
           disabled := True\<rparr>,
        history := history p @
          [CanProceed True, ValidateForm (Inr True),
           AddToFormData (fd @ [(''_csrf'', fst (getToken p))]), ConsoleLog (fst (getToken p)),
           ButtonLoading, SetTimeout 1500]\<rparr>"
    by (simp add: a simulateFormSubmission_start_def consoleLog_def setTimeout_def logEvent_def)
  finally show ?thesis .
qed

lemma signInForm_submit_thrown:
  assumes "fst (canProceed now (signInRateLimiter p))"
    and "fst (validateForm (document p) (signInForm p) signInFields) = Inl e"
  shows "signInForm_submit now later fd p =
     (False,
      p\<lparr>signInRateLimiter := snd (canProceed now (signInRateLimiter p)),
        document := snd (validateForm (document p) (signInForm p) signInFields),
        history := history p @ [CanProceed True, ValidateForm (Inl e)]\<rparr>)"
  using assms
  by (simp add: signInForm_submit_def rateLimiter_canProceed_def page_validateForm_def
      logEvent_def split_beta Let_def)

lemma signInForm_resume_eq:
  "signInForm_resume q =
     q\<lparr>signInButton := (signInButton q)
          \<lparr>buttonClassList := buttonClassList (signInButton q) - {''loading''},
           disabled := False\<rparr>,
       token := Some (fst (generateToken q)),
       entropy := (\<lambda>i. entropy q (i + 32)),
       localStorage :=
         (if rememberMe q then (localStorage q)(''rememberMe'' \<mapsto> ''true'')
          else (localStorage q)(''rememberMe'' := None)),
       toasts := toasts q @ [(''Welcome back! Signing you in...'', Success)],
       history := history q @
         [ButtonRestored, RefreshToken (fst (generateToken q)),
          (if rememberMe q then StorageSetItem ''rememberMe'' ''true''
           else StorageRemoveItem ''rememberMe''),
          ShowToast ''Welcome back! Signing you in...'' Success]\<rparr>"
  by (rule page.equality)
    (simp_all add: signInForm_resume_def refreshToken_def split_beta Let_def
      generateToken_snd generateToken_fst simulateFormSubmission_timeout_def
      localStorage_setItem_def localStorage_removeItem_def showToast_def logEvent_def)

lemma signUpForm_submit_rejected:
  assumes "\<not> fst (canProceed now (signUpRateLimiter p))"
  shows "signUpForm_submit now later fd p =
     (False,
      p\<lparr>signUpRateLimiter := snd (canProceed now (signUpRateLimiter p)),
        toasts := toasts p @
          [(waitMessage (getRemainingTime later (snd (canProceed now (signUpRateLimiter p)))), Error)],
        history := history p @
          [CanProceed False,
           ShowToast (waitMessage (getRemainingTime later (snd (canProceed now (signUpRateLimiter p)))))
             Error]\<rparr>)"
  using assms
  by (simp add: signUpForm_submit_def rateLimiter_canProceed_def showToast_def logEvent_def
      split_beta Let_def)

lemma signUpForm_submit_invalid:
  assumes "fst (canProceed now (signUpRateLimiter p))"
    and "fst (validateForm (document p) (signUpForm p) signUpFields) = Inr False"
  shows "signUpForm_submit now later fd p =
     (False,
      p\<lparr>signUpRateLimiter := snd (canProceed now (signUpRateLimiter p)),
        document := snd (validateForm (document p) (signUpForm p) signUpFields),
        toasts := toasts p @ [(''Please fix the errors above'', Error)],
        history := history p @
          [CanProceed True, ValidateForm (Inr False),
           ShowToast ''Please fix the errors above'' Error]\<rparr>)"
  using assms
  by (simp add: signUpForm_submit_def rateLimiter_canProceed_def page_validateForm_def
      showToast_def logEvent_def split_beta Let_def)

lemma signUpForm_submit_accepted:
  assumes "fst (canProceed now (signUpRateLimiter p))"
    and "fst (validateForm (document p) (signUpForm p) signUpFields) = Inr True"
  shows "signUpForm_submit now later fd p =
     (True,
      p\<lparr>signUpRateLimiter := snd (canProceed now (signUpRateLimiter p)),
        document := snd (validateForm (document p) (signUpForm p) signUpFields),
        token := Some (fst (getToken p)),
        entropy := entropy (snd (getToken p)),
        signUpButton := (signUpButton p)
          \<lparr>buttonClassList := insert ''loading'' (buttonClassList (signUpButton p)),
           disabled := True\<rparr>,
        history := history p @
          [CanProceed True, ValidateForm (Inr True),
           AddToFormData (fd @ [(''_csrf'', fst (getToken p))]), ConsoleLog (fst (getToken p)),
           ButtonLoading, SetTimeout 1500]\<rparr>)"
proof -
  let ?p2 = "p\<lparr>signUpRateLimiter := snd (canProceed now (signUpRateLimiter p)),
      document := snd (validateForm (document p) (signUpForm p) signUpFields),
      history := history p @ [CanProceed True, ValidateForm (Inr True)]\<rparr>"
  have t: "fst (getToken ?p2) = fst (getToken p)"
    by (rule getToken_frame) simp_all
  have e: "entropy (snd (getToken ?p2)) = entropy (snd (getToken p))"
    by (rule getToken_entropy_frame) simp_all
  note a = addToFormData_eq [of fd ?p2, unfolded t e]
  have b: "getToken (snd (addToFormData fd ?p2)) = (fst (getToken p), snd (addToFormData fd ?p2))"
    by (rule getToken_set) (simp_all add: a getToken_fst_nonempty)
  have "signUpForm_submit now later fd p =
      (True, simulateFormSubmission_start signUpButton_update
         (consoleLog (fst (getToken p)) (snd (addToFormData fd ?p2))))"
    using assms b
    by (simp add: signUpForm_submit_def rateLimiter_canProceed_def page_validateForm_def
        logEvent_def split_beta Let_def)
  also have "simulateFormSubmission_start signUpButton_update
         (consoleLog (fst (getToken p)) (snd (addToFormData fd ?p2))) =
      p\<lparr>signUpRateLimiter := snd (canProceed now (signUpRateLimiter p)),
        document := snd (validateForm (document p) (signUpForm p) signUpFields),
        token := Some (fst (getToken p)),
        entropy := entropy (snd (getToken p)),
        signUpButton := (signUpButton p)
          \<lparr>buttonClassList := insert ''loading'' (buttonClassList (signUpButton p)),
           disabled := True\<rparr>,
        history := history p @
          [CanProceed True, ValidateForm (Inr True),
           AddToFormData (fd @ [(''_csrf'', fst (getToken p))]), ConsoleLog (fst (getToken p)),
           ButtonLoading, SetTimeout 1500]\<rparr>"
    by (simp add: a simulateFormSubmission_start_def consoleLog_def setTimeout_def logEvent_def)
  finally show ?thesis .
qed

lemma signUpForm_submit_thrown:
  assumes "fst (canProceed now (signUpRateLimiter p))"
    and "fst (validateForm (document p) (signUpForm p) signUpFields) = Inl e"
  shows "signUpForm_submit now later fd p =
     (False,
      p\<lparr>signUpRateLimiter := snd (canProceed now (signUpRateLimiter p)),
        document := snd (validateForm (document p) (signUpForm p) signUpFields),
        history := history p @ [CanProceed True, ValidateForm (Inl e)]\<rparr>)"
  using assms
  by (simp add: signUpForm_submit_def rateLimiter_canProceed_def page_validateForm_def
      logEvent_def split_beta Let_def)

lemma signUpForm_resume_eq:
  "signUpForm_resume q =
     q\<lparr>signUpButton := (signUpButton q)
          \<lparr>buttonClassList := buttonClassList (signUpButton q) - {''loading''},
           disabled := False\<rparr>,
       token := Some (fst (generateToken q)),
       entropy := (\<lambda>i. entropy q (i + 32)),
       toasts := toasts q @ [(''Account created successfully!'', Success)],
       history := history q @
         [ButtonRestored, RefreshToken (fst (generateToken q)),
          ShowToast ''Account created successfully!'' Success, SetTimeout 1000]\<rparr>"
  by (rule page.equality)
    (simp_all add: signUpForm_resume_def refreshToken_def split_beta Let_def
      generateToken_snd generateToken_fst simulateFormSubmission_timeout_def
      showToast_def setTimeout_def logEvent_def)

lemma signInForm_submit_cases:
  "signInForm_submit now later fd p =
     (if \<not> fst (canProceed now (signInRateLimiter p)) then
        (False,
         p\<lparr>signInRateLimiter := snd (canProceed now (signInRateLimiter p)),
           toasts := toasts p @
             [(waitMessage (getRemainingTime later (snd (canProceed now (signInRateLimiter p)))),
               Error)],
           history := history p @
             [CanProceed False,
              ShowToast
                (waitMessage (getRemainingTime later (snd (canProceed now (signInRateLimiter p)))))
                Error]\<rparr>)
      else if fst (validateForm (document p) (signInForm p) signInFields) = Inr True then
        (True,
         p\<lparr>signInRateLimiter := snd (canProceed now (signInRateLimiter p)),
           document := snd (validateForm (document p) (signInForm p) signInFields),
           token := Some (fst (getToken p)),
           entropy := entropy (snd (getToken p)),
           signInButton := (signInButton p)
             \<lparr>buttonClassList := insert ''loading'' (buttonClassList (signInButton p)),
              disabled := True\<rparr>,
           history := history p @
             [CanProceed True, ValidateForm (Inr True),
              AddToFormData (fd @ [(''_csrf'', fst (getToken p))]), ConsoleLog (fst (getToken p)),
              ButtonLoading, SetTimeout 1500]\<rparr>)
      else
        (False,
         p\<lparr>signInRateLimiter := snd (canProceed now (signInRateLimiter p)),
           document := snd (validateForm (document p) (signInForm p) signInFields),
           toasts := toasts p @ [(''Please fix the errors above'', Error)],
           history := history p @
             [CanProceed True, ValidateForm (Inr False),
              ShowToast ''Please fix the errors above'' Error]\<rparr>))"
proof (cases "fst (canProceed now (signInRateLimiter p))")
  case False
  then show ?thesis
    by (simp only: signInForm_submit_rejected if_True simp_thms)
next
  case proceed: True
  from validateForm_plain [OF signInFields_plain]
  obtain ok where ok: "fst (validateForm (document p) (signInForm p) signInFields) = Inr ok"
    by blast
  show ?thesis
  proof (cases ok)
    case True
    with ok have v: "fst (validateForm (document p) (signInForm p) signInFields) = Inr True"
      by simp
    show ?thesis
      using proceed v by (simp only: signInForm_submit_accepted [OF proceed v] if_True if_False simp_thms)
  next
    case False
    with ok have v: "fst (validateForm (document p) (signInForm p) signInFields) = Inr False"
      by simp
    show ?thesis
      using proceed v by (simp add: signInForm_submit_invalid [OF proceed v])
  qed
qed

lemma signUpForm_submit_cases:
  "signUpForm_submit now later fd p =
     (if \<not> fst (canProceed now (signUpRateLimiter p)) then
        (False,
         p\<lparr>signUpRateLimiter := snd (canProceed now (signUpRateLimiter p)),
           toasts := toasts p @
             [(waitMessage (getRemainingTime later (snd (canProceed now (signUpRateLimiter p)))),
               Error)],
           history := history p @
             [CanProceed False,
              ShowToast
                (waitMessage (getRemainingTime later (snd (canProceed now (signUpRateLimiter p)))))
                Error]\<rparr>)
      else if fst (validateForm (document p) (signUpForm p) signUpFields) = Inr True then
        (True,
         p\<lparr>signUpRateLimiter := snd (canProceed now (signUpRateLimiter p)),
           document := snd (validateForm (document p) (signUpForm p) signUpFields),
           token := Some (fst (getToken p)),
           entropy := entropy (snd (getToken p)),
           signUpButton := (signUpButton p)
             \<lparr>buttonClassList := insert ''loading'' (buttonClassList (signUpButton p)),
              disabled := True\<rparr>,
           history := history p @
             [CanProceed True, ValidateForm (Inr True),
              AddToFormData (fd @ [(''_csrf'', fst (getToken p))]), ConsoleLog (fst (getToken p)),
              ButtonLoading, SetTimeout 1500]\<rparr>)
      else
        (False,
         p\<lparr>signUpRateLimiter := snd (canProceed now (signUpRateLimiter p)),
           document := snd (validateForm (document p) (signUpForm p) signUpFields),
           toasts := toasts p @ [(''Please fix the errors above'', Error)],
           history := history p @
             [CanProceed True, ValidateForm (Inr False),
              ShowToast ''Please fix the errors above'' Error]\<rparr>))"
proof (cases "fst (canProceed now (signUpRateLimiter p))")
  case False
  then show ?thesis
    by (simp only: signUpForm_submit_rejected if_True simp_thms)
next
  case proceed: True
  from validateForm_plain [OF signUpFields_plain]
  obtain ok where ok: "fst (validateForm (document p) (signUpForm p) signUpFields) = Inr ok"
    by blast
  show ?thesis
  proof (cases ok)
    case True
    with ok have v: "fst (validateForm (document p) (signUpForm p) signUpFields) = Inr True"
      by simp
    show ?thesis
      using proceed v by (simp only: signUpForm_submit_accepted [OF proceed v] if_True if_False simp_thms)
  next
    case False
    with ok have v: "fst (validateForm (document p) (signUpForm p) signUpFields) = Inr False"
      by simp
    show ?thesis
      using proceed v by (simp add: signUpForm_submit_invalid [OF proceed v])
  qed
qed

lemma signInForm_whole:
  assumes "fst (canProceed now (signInRateLimiter p))"
    and "fst (validateForm (document p) (signInForm p) signInFields) = Inr True"
  shows "history (signInForm_resume (snd (signInForm_submit now later fd p))) =
       history p @
         [CanProceed True, ValidateForm (Inr True),
          AddToFormData (fd @ [(''_csrf'', fst (getToken p))]), ConsoleLog (fst (getToken p)),
          ButtonLoading, SetTimeout 1500,
          ButtonRestored, RefreshToken (fst (generateToken (snd (getToken p)))),
          (if rememberMe p then StorageSetItem ''rememberMe'' ''true''
           else StorageRemoveItem ''rememberMe''),
          ShowToast ''Welcome back! Signing you in...'' Success]"
    and "toasts (signInForm_resume (snd (signInForm_submit now later fd p))) =
       toasts p @ [(''Welcome back! Signing you in...'', Success)]"
  by (simp_all add: signInForm_submit_accepted [OF assms] signInForm_resume_eq generateToken_fst)

lemma signUpForm_whole:
  assumes "fst (canProceed now (signUpRateLimiter p))"
    and "fst (validateForm (document p) (signUpForm p) signUpFields) = Inr True"
  shows "history (signUpForm_resume (snd (signUpForm_submit now later fd p))) =
       history p @
         [CanProceed True, ValidateForm (Inr True),
          AddToFormData (fd @ [(''_csrf'', fst (getToken p))]), ConsoleLog (fst (getToken p)),
          ButtonLoading, SetTimeout 1500,
          ButtonRestored, RefreshToken (fst (generateToken (snd (getToken p)))),
          ShowToast ''Account created successfully!'' Success, SetTimeout 1000]"
    and "toasts (signUpForm_resume (snd (signUpForm_submit now later fd p))) =
       toasts p @ [(''Account created successfully!'', Success)]"
  by (simp_all add: signUpForm_submit_accepted [OF assms] signUpForm_resume_eq generateToken_fst)

text \<open>
  Claim C7. One submission runs its steps in one order, and each step is pinned by what it
  does to the page; \<open>history\<close> gives the order. The handler first asks the rate limiter.
  When the limiter rejects, it shows the error toast and ends: the limiter, the toasts and
  the history are all that has changed. Otherwise it validates the form; when the form is
  invalid, it shows the error toast and ends: beyond the limiter, the marks of the inputs,
  the toasts and the history nothing has changed, so no token was attached or generated
  and the button was not touched. Otherwise the token is attached, the button enters its
  busy state and the timer is set, with no toast so far. When the timer fires, whatever has
  happened to the page in between, the button leaves the busy state, then the token is
  refreshed, and the success toast comes last (for the sign-up form, followed only by the
  timer that switches the panel). \<open>validateForm\<close> does not throw on the field lists of the
  two handlers.
\<close>

theorem submit_handler_sequence:
  "signInForm_submit now later fd p =
     (if \<not> fst (canProceed now (signInRateLimiter p)) then
        (False,
         p\<lparr>signInRateLimiter := snd (canProceed now (signInRateLimiter p)),
           toasts := toasts p @
             [(waitMessage (getRemainingTime later (snd (canProceed now (signInRateLimiter p)))),
               Error)],
           history := history p @
             [CanProceed False,
              ShowToast
                (waitMessage (getRemainingTime later (snd (canProceed now (signInRateLimiter p)))))
                Error]\<rparr>)
      else if fst (validateForm (document p) (signInForm p) signInFields) = Inr True then
        (True,
         p\<lparr>signInRateLimiter := snd (canProceed now (signInRateLimiter p)),
           document := snd (validateForm (document p) (signInForm p) signInFields),
           token := Some (fst (getToken p)),
           entropy := entropy (snd (getToken p)),
           signInButton := (signInButton p)
             \<lparr>buttonClassList := insert ''loading'' (buttonClassList (signInButton p)),
              disabled := True\<rparr>,
           history := history p @
             [CanProceed True, ValidateForm (Inr True),
              AddToFormData (fd @ [(''_csrf'', fst (getToken p))]), ConsoleLog (fst (getToken p)),
              ButtonLoading, SetTimeout 1500]\<rparr>)
      else
        (False,
         p\<lparr>signInRateLimiter := snd (canProceed now (signInRateLimiter p)),
           document := snd (validateForm (document p) (signInForm p) signInFields),
           toasts := toasts p @ [(''Please fix the errors above'', Error)],
           history := history p @
             [CanProceed True, ValidateForm (Inr False),
              ShowToast ''Please fix the errors above'' Error]\<rparr>))
   \<and> signInForm_resume q =
     q\<lparr>signInButton := (signInButton q)
          \<lparr>buttonClassList := buttonClassList (signInButton q) - {''loading''},
           disabled := False\<rparr>,
       token := Some (fst (generateToken q)),
       entropy := (\<lambda>i. entropy q (i + 32)),
       localStorage :=
         (if rememberMe q then (localStorage q)(''rememberMe'' \<mapsto> ''true'')
          else (localStorage q)(''rememberMe'' := None)),
       toasts := toasts q @ [(''Welcome back! Signing you in...'', Success)],
       history := history q @
         [ButtonRestored, RefreshToken (fst (generateToken q)),
          (if rememberMe q then StorageSetItem ''rememberMe'' ''true''
           else StorageRemoveItem ''rememberMe''),
          ShowToast ''Welcome back! Signing you in...'' Success]\<rparr>
   \<and> signUpForm_submit now later fd p =
     (if \<not> fst (canProceed now (signUpRateLimiter p)) then
        (False,
         p\<lparr>signUpRateLimiter := snd (canProceed now (signUpRateLimiter p)),
           toasts := toasts p @
             [(waitMessage (getRemainingTime later (snd (canProceed now (signUpRateLimiter p)))),
               Error)],
           history := history p @
             [CanProceed False,
              ShowToast
                (waitMessage (getRemainingTime later (snd (canProceed now (signUpRateLimiter p)))))
                Error]\<rparr>)
      else if fst (validateForm (document p) (signUpForm p) signUpFields) = Inr True then
        (True,
         p\<lparr>signUpRateLimiter := snd (canProceed now (signUpRateLimiter p)),
           document := snd (validateForm (document p) (signUpForm p) signUpFields),
           token := Some (fst (getToken p)),
           entropy := entropy (snd (getToken p)),
           signUpButton := (signUpButton p)
             \<lparr>buttonClassList := insert ''loading'' (buttonClassList (signUpButton p)),
              disabled := True\<rparr>,
           history := history p @
             [CanProceed True, ValidateForm (Inr True),
              AddToFormData (fd @ [(''_csrf'', fst (getToken p))]), ConsoleLog (fst (getToken p)),
              ButtonLoading, SetTimeout 1500]\<rparr>)
      else
        (False,
         p\<lparr>signUpRateLimiter := snd (canProceed now (signUpRateLimiter p)),
           document := snd (validateForm (document p) (signUpForm p) signUpFields),
           toasts := toasts p @ [(''Please fix the errors above'', Error)],
           history := history p @
             [CanProceed True, ValidateForm (Inr False),
              ShowToast ''Please fix the errors above'' Error]\<rparr>))
   \<and> signUpForm_resume q =
     q\<lparr>signUpButton := (signUpButton q)
          \<lparr>buttonClassList := buttonClassList (signUpButton q) - {''loading''},
           disabled := False\<rparr>,
       token := Some (fst (generateToken q)),
       entropy := (\<lambda>i. entropy q (i + 32)),
       toasts := toasts q @ [(''Account created successfully!'', Success)],
       history := history q @
         [ButtonRestored, RefreshToken (fst (generateToken q)),
          ShowToast ''Account created successfully!'' Success, SetTimeout 1000]\<rparr>
   \<and> (fst (canProceed now (signInRateLimiter p)) \<and>
        fst (validateForm (document p) (signInForm p) signInFields) = Inr True \<longrightarrow>
        history (signInForm_resume (snd (signInForm_submit now later fd p))) =
          history p @
            [CanProceed True, ValidateForm (Inr True),
             AddToFormData (fd @ [(''_csrf'', fst (getToken p))]), ConsoleLog (fst (getToken p)),
             ButtonLoading, SetTimeout 1500,
             ButtonRestored, RefreshToken (fst (generateToken (snd (getToken p)))),
             (if rememberMe p then StorageSetItem ''rememberMe'' ''true''
              else StorageRemoveItem ''rememberMe''),
             ShowToast ''Welcome back! Signing you in...'' Success]
        \<and> toasts (signInForm_resume (snd (signInForm_submit now later fd p))) =
          toasts p @ [(''Welcome back! Signing you in...'', Success)])
   \<and> (fst (canProceed now (signUpRateLimiter p)) \<and>
        fst (validateForm (document p) (signUpForm p) signUpFields) = Inr True \<longrightarrow>
        history (signUpForm_resume (snd (signUpForm_submit now later fd p))) =
          history p @
            [CanProceed True, ValidateForm (Inr True),
             AddToFormData (fd @ [(''_csrf'', fst (getToken p))]), ConsoleLog (fst (getToken p)),
             ButtonLoading, SetTimeout 1500,
             ButtonRestored, RefreshToken (fst (generateToken (snd (getToken p)))),
             ShowToast ''Account created successfully!'' Success, SetTimeout 1000]
        \<and> toasts (signUpForm_resume (snd (signUpForm_submit now later fd p))) =
          toasts p @ [(''Account created successfully!'', Success)])
   \<and> (\<exists>ok. fst (validateForm (document p) (signInForm p) signInFields) = Inr ok)
   \<and> (\<exists>ok. fst (validateForm (document p) (signUpForm p) signUpFields) = Inr ok)"
proof (intro conjI impI)
  show "\<exists>ok. fst (validateForm (document p) (signInForm p) signInFields) = Inr ok"
    by (rule validateForm_plain [OF signInFields_plain])
  show "\<exists>ok. fst (validateForm (document p) (signUpForm p) signUpFields) = Inr ok"
    by (rule validateForm_plain [OF signUpFields_plain])
next
  assume "fst (canProceed now (signInRateLimiter p)) \<and>
        fst (validateForm (document p) (signInForm p) signInFields) = Inr True"
  then have a: "fst (canProceed now (signInRateLimiter p))"
    and b: "fst (validateForm (document p) (signInForm p) signInFields) = Inr True"
    by simp_all
  from signInForm_whole [OF a b, of later fd]
  show "history (signInForm_resume (snd (signInForm_submit now later fd p))) =
          history p @
            [CanProceed True, ValidateForm (Inr True),
             AddToFormData (fd @ [(''_csrf'', fst (getToken p))]), ConsoleLog (fst (getToken p)),
             ButtonLoading, SetTimeout 1500,
             ButtonRestored, RefreshToken (fst (generateToken (snd (getToken p)))),
             (if rememberMe p then StorageSetItem ''rememberMe'' ''true''
              else StorageRemoveItem ''rememberMe''),
             ShowToast ''Welcome back! Signing you in...'' Success]"
    and "toasts (signInForm_resume (snd (signInForm_submit now later fd p))) =
          toasts p @ [(''Welcome back! Signing you in...'', Success)]"
    by simp_all
next
  assume "fst (canProceed now (signUpRateLimiter p)) \<and>
        fst (validateForm (document p) (signUpForm p) signUpFields) = Inr True"
  then have a: "fst (canProceed now (signUpRateLimiter p))"
    and b: "fst (validateForm (document p) (signUpForm p) signUpFields) = Inr True"
    by simp_all
  from signUpForm_whole [OF a b, of later fd]
  show "history (signUpForm_resume (snd (signUpForm_submit now later fd p))) =
          history p @
            [CanProceed True, ValidateForm (Inr True),
             AddToFormData (fd @ [(''_csrf'', fst (getToken p))]), ConsoleLog (fst (getToken p)),
             ButtonLoading, SetTimeout 1500,
             ButtonRestored, RefreshToken (fst (generateToken (snd (getToken p)))),
             ShowToast ''Account created successfully!'' Success, SetTimeout 1000]"
    and "toasts (signUpForm_resume (snd (signUpForm_submit now later fd p))) =
          toasts p @ [(''Account created successfully!'', Success)]"
    by simp_all
qed (rule signInForm_submit_cases signInForm_resume_eq signUpForm_submit_cases
    signUpForm_resume_eq)+

theorem submit_handler_sequence_witness:
  "fst (canProceed 5000 (createRateLimiter 2000))
   \<and> fst (validateForm
        (Map.empty(''signInEmail'' \<mapsto> \<lparr>ivalue = js ''a@b.co'', classList = {}, errorMessage = []\<rparr>,
                   ''signInPassword'' \<mapsto> \<lparr>ivalue = js ''secret1'', classList = {}, errorMessage = []\<rparr>))
        \<lparr>members = {''signInEmail'', ''signInPassword''}, otherSelector = (\<lambda>s. Inl SyntaxError)\<rparr>
        signInFields) = Inr True
   \<and> history (signInForm_resume (snd (signInForm_submit 5000 5000 [(''email'', js ''a@b.co'')]
       \<lparr>document =
          Map.empty(''signInEmail'' \<mapsto> \<lparr>ivalue = js ''a@b.co'', classList = {}, errorMessage = []\<rparr>,
                    ''signInPassword'' \<mapsto> \<lparr>ivalue = js ''secret1'', classList = {}, errorMessage = []\<rparr>),
        signInForm = \<lparr>members = {''signInEmail'', ''signInPassword''},
                      otherSelector = (\<lambda>s. Inl SyntaxError)\<rparr>,
        signUpForm = \<lparr>members = {}, otherSelector = (\<lambda>s. Inl SyntaxError)\<rparr>,
        signInButton = \<lparr>buttonClassList = {}, disabled = False\<rparr>,
        signUpButton = \<lparr>buttonClassList = {}, disabled = False\<rparr>,
        signInRateLimiter = createRateLimiter 2000,
        signUpRateLimiter = createRateLimiter 2000,
        token = Some (js ''0a''), entropy = (\<lambda>i. 0), rememberMe = True,
        localStorage = Map.empty, toasts = [], containerActive = False, history = []\<rparr>)))
     = [CanProceed True, ValidateForm (Inr True),
        AddToFormData [(''email'', js ''a@b.co''), (''_csrf'', js ''0a'')], ConsoleLog (js ''0a''),
        ButtonLoading, SetTimeout 1500,
        ButtonRestored,
        RefreshToken (js ''0000000000000000000000000000000000000000000000000000000000000000''),
        StorageSetItem ''rememberMe'' ''true'',
        ShowToast ''Welcome back! Signing you in...'' Success]
   \<and> toasts (signInForm_resume (snd (signInForm_submit 5000 5000 [(''email'', js ''a@b.co'')]
       \<lparr>document =
          Map.empty(''signInEmail'' \<mapsto> \<lparr>ivalue = js ''a@b.co'', classList = {}, errorMessage = []\<rparr>,
                    ''signInPassword'' \<mapsto> \<lparr>ivalue = js ''secret1'', classList = {}, errorMessage = []\<rparr>),
        signInForm = \<lparr>members = {''signInEmail'', ''signInPassword''},
                      otherSelector = (\<lambda>s. Inl SyntaxError)\<rparr>,
        signUpForm = \<lparr>members = {}, otherSelector = (\<lambda>s. Inl SyntaxError)\<rparr>,
        signInButton = \<lparr>buttonClassList = {}, disabled = False\<rparr>,
        signUpButton = \<lparr>buttonClassList = {}, disabled = False\<rparr>,
        signInRateLimiter = createRateLimiter 2000,
        signUpRateLimiter = createRateLimiter 2000,
        token = Some (js ''0a''), entropy = (\<lambda>i. 0), rememberMe = True,
        localStorage = Map.empty, toasts = [], containerActive = False, history = []\<rparr>)))
     = [(''Welcome back! Signing you in...'', Success)]"
proof -
  let ?doc = "Map.empty(''signInEmail'' \<mapsto> \<lparr>ivalue = js ''a@b.co'', classList = {}, errorMessage = []\<rparr>,
                   ''signInPassword'' \<mapsto> \<lparr>ivalue = js ''secret1'', classList = {}, errorMessage = []\<rparr>)"
  let ?frm = "\<lparr>members = {''signInEmail'', ''signInPassword''},
      otherSelector = (\<lambda>s. Inl SyntaxError)\<rparr>"
  let ?p = "\<lparr>document = ?doc,
        signInForm = ?frm,
        signUpForm = \<lparr>members = {}, otherSelector = (\<lambda>s. Inl SyntaxError)\<rparr>,
        signInButton = \<lparr>buttonClassList = {}, disabled = False\<rparr>,
        signUpButton = \<lparr>buttonClassList = {}, disabled = False\<rparr>,
        signInRateLimiter = createRateLimiter 2000,
        signUpRateLimiter = createRateLimiter 2000,
        token = Some (js ''0a''), entropy = (\<lambda>i. 0), rememberMe = True,
        localStorage = Map.empty, toasts = [], containerActive = False, history = []\<rparr>"
  have h1: "fst (canProceed 5000 (createRateLimiter 2000))"
    by (simp add: canProceed_def createRateLimiter_def)
  have h2: "fst (validateForm ?doc ?frm signInFields) = Inr True"
    by (simp add: validateForm_def signInFields_def querySelector_def plainIdentifier_def
        validateField_def validators_email_def validators_password_def js_def trim_def
        isWhiteSpace_def emailRegex_def notSpaceAt_def)
  have tok: "getToken ?p = (js ''0a'', ?p)"
    by (simp add: getToken_def js_def)
  have "[0..<32] = [0, 1, 2, 3, 4, 5, 6, 7, 8, 9, 10, 11, 12, 13, 14, 15, 16, 17, 18, 19,
      20, 21, 22, 23, 24, 25, 26, 27, 28, 29, 30, 31 :: nat]"
    by code_simp
  then have new: "fst (generateToken ?p) =
      js ''0000000000000000000000000000000000000000000000000000000000000000''"
    by (simp add: generateToken_fst digitChar_def)
  have h: "fst (canProceed 5000 (signInRateLimiter ?p)) \<and>
      fst (validateForm (document ?p) (signInForm ?p) signInFields) = Inr True"
    using h1 h2 by simp
  from submit_handler_sequence [of 5000 5000 "[(''email'', js ''a@b.co'')]" ?p,
      THEN conjunct2, THEN conjunct2, THEN conjunct2, THEN conjunct2, THEN conjunct1,
      THEN mp, OF h]
  have "history (signInForm_resume (snd (signInForm_submit 5000 5000 [(''email'', js ''a@b.co'')] ?p)))
      = history ?p @
            [CanProceed True, ValidateForm (Inr True),
             AddToFormData ([(''email'', js ''a@b.co'')] @ [(''_csrf'', fst (getToken ?p))]),
             ConsoleLog (fst (getToken ?p)),
             ButtonLoading, SetTimeout 1500,
             ButtonRestored, RefreshToken (fst (generateToken (snd (getToken ?p)))),
             (if rememberMe ?p then StorageSetItem ''rememberMe'' ''true''
              else StorageRemoveItem ''rememberMe''),
             ShowToast ''Welcome back! Signing you in...'' Success]"
    and "toasts (signInForm_resume (snd (signInForm_submit 5000 5000 [(''email'', js ''a@b.co'')] ?p)))
      = toasts ?p @ [(''Welcome back! Signing you in...'', Success)]"
    by (rule conjunct1, rule conjunct2)
  with h1 h2 show ?thesis
    by (simp add: tok new)
qed

text \<open>
  Claim C8. A generated token has 64 characters, all of them hexadecimal digits: it is the
  two-digit hex encoding of the next 32 random bytes. Generating makes it the current token
  and uses the bytes up, so that the next token is made of the 32 bytes after them; two
  tokens are equal only if their bytes are. \<open>getToken\<close> returns the current token, and
  generates one first when there is none. \<open>refreshToken\<close> always generates, whatever the
  token was. A submission that passes the rate limiter and the validation appends the
  current token to its form data under the name \<^verbatim>\<open>_csrf\<close> before the button enters its
  busy state, and leaves that token current; when the submission completes, the token is
  replaced by a newly generated one. This holds for both forms.
\<close>

theorem csrf_token_lifecycle:
  "length (fst (generateToken p)) = 64
   \<and> list_all (\<lambda>c. c \<in> set (js ''0123456789abcdef'')) (fst (generateToken p))
   \<and> fst (generateToken p) =
       js (concat (map (\<lambda>i. padStart 2 ''0'' (toString 16 (unat (entropy p i)))) [0..<32]))
   \<and> snd (generateToken p) =
       p\<lparr>token := Some (fst (generateToken p)), entropy := (\<lambda>i. entropy p (i + 32))\<rparr>
   \<and> fst (generateToken (snd (generateToken p))) =
       js (concat (map (\<lambda>i. padStart 2 ''0'' (toString 16 (unat (entropy p (i + 32))))) [0..<32]))
   \<and> (fst (generateToken q) = fst (generateToken p)
        \<longleftrightarrow> map (entropy q) [0..<32] = map (entropy p) [0..<32])
   \<and> getToken p =
       (if token p = None \<or> token p = Some [] then generateToken p else (the (token p), p))
   \<and> token (snd (getToken p)) = Some (fst (getToken p))
   \<and> refreshToken (p\<lparr>token := t\<rparr>) =
       (fst (generateToken p),
        p\<lparr>token := Some (fst (generateToken p)), entropy := (\<lambda>i. entropy p (i + 32)),
          history := history p @ [RefreshToken (fst (generateToken p))]\<rparr>)
   \<and> (fst (canProceed now (signInRateLimiter p)) \<and>
        fst (validateForm (document p) (signInForm p) signInFields) = Inr True \<longrightarrow>
        history (snd (signInForm_submit now later fd p)) =
          history p @
            [CanProceed True, ValidateForm (Inr True),
             AddToFormData (fd @ [(''_csrf'', fst (getToken p))]), ConsoleLog (fst (getToken p)),
             ButtonLoading, SetTimeout 1500]
        \<and> token (snd (signInForm_submit now later fd p)) = Some (fst (getToken p))
        \<and> entropy (snd (signInForm_submit now later fd p)) = entropy (snd (getToken p)))
   \<and> (fst (canProceed now (signUpRateLimiter p)) \<and>
        fst (validateForm (document p) (signUpForm p) signUpFields) = Inr True \<longrightarrow>
        history (snd (signUpForm_submit now later fd p)) =
          history p @
            [CanProceed True, ValidateForm (Inr True),
             AddToFormData (fd @ [(''_csrf'', fst (getToken p))]), ConsoleLog (fst (getToken p)),
             ButtonLoading, SetTimeout 1500]
        \<and> token (snd (signUpForm_submit now later fd p)) = Some (fst (getToken p))
        \<and> entropy (snd (signUpForm_submit now later fd p)) = entropy (snd (getToken p)))
   \<and> token (signInForm_resume q) = Some (fst (generateToken q))
   \<and> entropy (signInForm_resume q) = (\<lambda>i. entropy q (i + 32))
   \<and> history (signInForm_resume q) ! (length (history q) + 1) = RefreshToken (fst (generateToken q))
   \<and> token (signUpForm_resume q) = Some (fst (generateToken q))
   \<and> entropy (signUpForm_resume q) = (\<lambda>i. entropy q (i + 32))
   \<and> history (signUpForm_resume q) ! (length (history q) + 1) = RefreshToken (fst (generateToken q))"
proof (intro conjI impI)
  show "length (fst (generateToken p)) = 64" by (rule generateToken_length)
  show "list_all (\<lambda>c. c \<in> set (js ''0123456789abcdef'')) (fst (generateToken p))"
    by (rule generateToken_hex)
  show enc: "fst (generateToken p) =
       js (concat (map (\<lambda>i. padStart 2 ''0'' (toString 16 (unat (entropy p i)))) [0..<32]))"
    for p
    by (simp add: generateToken_def getRandomValues_def Let_def comp_def del: upt_Suc)
  show s: "snd (generateToken p) =
       p\<lparr>token := Some (fst (generateToken p)), entropy := (\<lambda>i. entropy p (i + 32))\<rparr>"
    by (rule page.equality) (simp_all add: generateToken_snd)
  show "fst (generateToken (snd (generateToken p))) =
       js (concat (map (\<lambda>i. padStart 2 ''0'' (toString 16 (unat (entropy p (i + 32))))) [0..<32]))"
    by (simp add: generateToken_snd enc del: upt_Suc)
  show "fst (generateToken q) = fst (generateToken p)
        \<longleftrightarrow> map (entropy q) [0..<32] = map (entropy p) [0..<32]"
    by (rule generateToken_inj)
  show "getToken p =
       (if token p = None \<or> token p = Some [] then generateToken p else (the (token p), p))"
    by (rule getToken_cases)
  show "token (snd (getToken p)) = Some (fst (getToken p))" by (rule getToken_state)
  have f: "fst (generateToken (p\<lparr>token := t\<rparr>)) = fst (generateToken p)"
    by (rule generateToken_frame) simp
  have "snd (refreshToken (p\<lparr>token := t\<rparr>)) =
        p\<lparr>token := Some (fst (generateToken p)), entropy := (\<lambda>i. entropy p (i + 32)),
          history := history p @ [RefreshToken (fst (generateToken p))]\<rparr>"
    by (rule page.equality)
      (simp_all add: refreshToken_def split_beta logEvent_def generateToken_snd f)
  moreover have "fst (refreshToken (p\<lparr>token := t\<rparr>)) = fst (generateToken p)"
    by (simp add: refreshToken_def split_beta f)
  ultimately show "refreshToken (p\<lparr>token := t\<rparr>) =
       (fst (generateToken p),
        p\<lparr>token := Some (fst (generateToken p)), entropy := (\<lambda>i. entropy p (i + 32)),
          history := history p @ [RefreshToken (fst (generateToken p))]\<rparr>)"
    by (metis prod.collapse)
  show "token (signInForm_resume q) = Some (fst (generateToken q))"
    and "entropy (signInForm_resume q) = (\<lambda>i. entropy q (i + 32))"
    and "history (signInForm_resume q) ! (length (history q) + 1) = RefreshToken (fst (generateToken q))"
    by (simp_all add: signInForm_resume_eq nth_append)
  show "token (signUpForm_resume q) = Some (fst (generateToken q))"
    and "entropy (signUpForm_resume q) = (\<lambda>i. entropy q (i + 32))"
    and "history (signUpForm_resume q) ! (length (history q) + 1) = RefreshToken (fst (generateToken q))"
    by (simp_all add: signUpForm_resume_eq nth_append)
next
  assume "fst (canProceed now (signInRateLimiter p)) \<and>
        fst (validateForm (document p) (signInForm p) signInFields) = Inr True"
  then have a: "fst (canProceed now (signInRateLimiter p))"
    and b: "fst (validateForm (document p) (signInForm p) signInFields) = Inr True"
    by simp_all
  note acc = signInForm_submit_accepted [OF a b, of later fd]
  show "history (snd (signInForm_submit now later fd p)) =
          history p @
            [CanProceed True, ValidateForm (Inr True),
             AddToFormData (fd @ [(''_csrf'', fst (getToken p))]), ConsoleLog (fst (getToken p)),
             ButtonLoading, SetTimeout 1500]"
    and "token (snd (signInForm_submit now later fd p)) = Some (fst (getToken p))"
    and "entropy (snd (signInForm_submit now later fd p)) = entropy (snd (getToken p))"
    by (simp_all add: acc)
next
  assume "fst (canProceed now (signUpRateLimiter p)) \<and>
        fst (validateForm (document p) (signUpForm p) signUpFields) = Inr True"
  then have a: "fst (canProceed now (signUpRateLimiter p))"
    and b: "fst (validateForm (document p) (signUpForm p) signUpFields) = Inr True"
    by simp_all
  note acc = signUpForm_submit_accepted [OF a b, of later fd]
  show "history (snd (signUpForm_submit now later fd p)) =
          history p @
            [CanProceed True, ValidateForm (Inr True),
             AddToFormData (fd @ [(''_csrf'', fst (getToken p))]), ConsoleLog (fst (getToken p)),
             ButtonLoading, SetTimeout 1500]"
    and "token (snd (signUpForm_submit now later fd p)) = Some (fst (getToken p))"
    and "entropy (snd (signUpForm_submit now later fd p)) = entropy (snd (getToken p))"
    by (simp_all add: acc)
qed

theorem csrf_token_lifecycle_witness:
  "fst (canProceed 5000 (createRateLimiter 2000))
   \<and> fst (validateForm
        (Map.empty(''signInEmail'' \<mapsto> \<lparr>ivalue = js ''a@b.co'', classList = {}, errorMessage = []\<rparr>,
                   ''signInPassword'' \<mapsto> \<lparr>ivalue = js ''secret1'', classList = {}, errorMessage = []\<rparr>))
        \<lparr>members = {''signInEmail'', ''signInPassword''}, otherSelector = (\<lambda>s. Inl SyntaxError)\<rparr>
        signInFields) = Inr True
   \<and> history (snd (signInForm_submit 5000 5000 [(''email'', js ''a@b.co'')]
       \<lparr>document =
          Map.empty(''signInEmail'' \<mapsto> \<lparr>ivalue = js ''a@b.co'', classList = {}, errorMessage = []\<rparr>,
                    ''signInPassword'' \<mapsto> \<lparr>ivalue = js ''secret1'', classList = {}, errorMessage = []\<rparr>),
        signInForm = \<lparr>members = {''signInEmail'', ''signInPassword''},
                      otherSelector = (\<lambda>s. Inl SyntaxError)\<rparr>,
        signUpForm = \<lparr>members = {}, otherSelector = (\<lambda>s. Inl SyntaxError)\<rparr>,
        signInButton = \<lparr>buttonClassList = {}, disabled = False\<rparr>,
        signUpButton = \<lparr>buttonClassList = {}, disabled = False\<rparr>,
        signInRateLimiter = createRateLimiter 2000,
        signUpRateLimiter = createRateLimiter 2000,
        token = Some (js ''0a''), entropy = (\<lambda>i. 0), rememberMe = True,
        localStorage = Map.empty, toasts = [], containerActive = False, history = []\<rparr>))
     = [CanProceed True, ValidateForm (Inr True),
        AddToFormData [(''email'', js ''a@b.co''), (''_csrf'', js ''0a'')], ConsoleLog (js ''0a''),
        ButtonLoading, SetTimeout 1500]
   \<and> token (snd (signInForm_submit 5000 5000 [(''email'', js ''a@b.co'')]
       \<lparr>document =
          Map.empty(''signInEmail'' \<mapsto> \<lparr>ivalue = js ''a@b.co'', classList = {}, errorMessage = []\<rparr>,
                    ''signInPassword'' \<mapsto> \<lparr>ivalue = js ''secret1'', classList = {}, errorMessage = []\<rparr>),
        signInForm = \<lparr>members = {''signInEmail'', ''signInPassword''},
                      otherSelector = (\<lambda>s. Inl SyntaxError)\<rparr>,
        signUpForm = \<lparr>members = {}, otherSelector = (\<lambda>s. Inl SyntaxError)\<rparr>,
        signInButton = \<lparr>buttonClassList = {}, disabled = False\<rparr>,
        signUpButton = \<lparr>buttonClassList = {}, disabled = False\<rparr>,
        signInRateLimiter = createRateLimiter 2000,
        signUpRateLimiter = createRateLimiter 2000,
        token = Some (js ''0a''), entropy = (\<lambda>i. 0), rememberMe = True,
        localStorage = Map.empty, toasts = [], containerActive = False, history = []\<rparr>))
     = Some (js ''0a'')"
proof -
  let ?doc = "Map.empty(''signInEmail'' \<mapsto> \<lparr>ivalue = js ''a@b.co'', classList = {}, errorMessage = []\<rparr>,
                   ''signInPassword'' \<mapsto> \<lparr>ivalue = js ''secret1'', classList = {}, errorMessage = []\<rparr>)"
  let ?frm = "\<lparr>members = {''signInEmail'', ''signInPassword''},
      otherSelector = (\<lambda>s. Inl SyntaxError)\<rparr>"
  let ?p = "\<lparr>document = ?doc,
        signInForm = ?frm,
        signUpForm = \<lparr>members = {}, otherSelector = (\<lambda>s. Inl SyntaxError)\<rparr>,
        signInButton = \<lparr>buttonClassList = {}, disabled = False\<rparr>,
        signUpButton = \<lparr>buttonClassList = {}, disabled = False\<rparr>,
        signInRateLimiter = createRateLimiter 2000,
        signUpRateLimiter = createRateLimiter 2000,
        token = Some (js ''0a''), entropy = (\<lambda>i. 0), rememberMe = True,
        localStorage = Map.empty, toasts = [], containerActive = False, history = []\<rparr>"
  have h1: "fst (canProceed 5000 (createRateLimiter 2000))"
    by (simp add: canProceed_def createRateLimiter_def)
  have h2: "fst (validateForm ?doc ?frm signInFields) = Inr True"
    by (simp add: validateForm_def signInFields_def querySelector_def plainIdentifier_def
        validateField_def validators_email_def validators_password_def js_def trim_def
        isWhiteSpace_def emailRegex_def notSpaceAt_def)
  have tok: "getToken ?p = (js ''0a'', ?p)"
    by (simp add: getToken_def js_def)
  have h: "fst (canProceed 5000 (signInRateLimiter ?p)) \<and>
      fst (validateForm (document ?p) (signInForm ?p) signInFields) = Inr True"
    using h1 h2 by simp
  note t = csrf_token_lifecycle [of ?p _ _ 5000 5000 "[(''email'', js ''a@b.co'')]",
      THEN conjunct2, THEN conjunct2, THEN conjunct2, THEN conjunct2, THEN conjunct2,
      THEN conjunct2, THEN conjunct2, THEN conjunct2, THEN conjunct2, THEN conjunct1,
      THEN mp, OF h]
  from t have "history (snd (signInForm_submit 5000 5000 [(''email'', js ''a@b.co'')] ?p)) =
      history ?p @
        [CanProceed True, ValidateForm (Inr True),
         AddToFormData ([(''email'', js ''a@b.co'')] @ [(''_csrf'', fst (getToken ?p))]),
         ConsoleLog (fst (getToken ?p)), ButtonLoading, SetTimeout 1500]"
    and "token (snd (signInForm_submit 5000 5000 [(''email'', js ''a@b.co'')] ?p)) =
      Some (fst (getToken ?p))"
    by (rule conjunct1, rule conjunct2 [THEN conjunct1])
  with h1 h2 show ?thesis
    by (simp add: tok)
qed

end
